theory Spec2Isabelle
  imports Complex_Main "HOL-Library.AList"
begin

section \<open>Strings\<close>

text \<open>
  JavaScript strings are modelled as \<^typ>\<open>string\<close>, for strings of ASCII characters
  (\<open>ascii\<close>). The regular expressions of the source (\<^verbatim>\<open>[a-z]\<close>, \<^verbatim>\<open>[A-Z]\<close>) only ever
  match ASCII letters. On a string of ASCII characters \<^verbatim>\<open>toUpperCase\<close> and
  \<^verbatim>\<open>toLowerCase\<close> change the ASCII letters and nothing else, which is what the two
  functions below do; other characters, which JavaScript maps by the Unicode tables,
  are outside the model, and every property of the two functions is stated for
  strings of ASCII characters.
\<close>

definition ascii :: "string \<Rightarrow> bool" where
  "ascii s = list_all (\<lambda>c. (of_char c :: nat) < 128) s"

definition is_lower :: "char \<Rightarrow> bool" where
  "is_lower c = (let n = (of_char c :: nat) in 97 \<le> n \<and> n \<le> 122)"

definition is_upper :: "char \<Rightarrow> bool" where
  "is_upper c = (let n = (of_char c :: nat) in 65 \<le> n \<and> n \<le> 90)"

definition is_digit :: "char \<Rightarrow> bool" where
  "is_digit c = (let n = (of_char c :: nat) in 48 \<le> n \<and> n \<le> 57)"

definition upper_char :: "char \<Rightarrow> char" where
  "upper_char c = (if is_lower c then char_of ((of_char c :: nat) - 32) else c)"

definition lower_char :: "char \<Rightarrow> char" where
  "lower_char c = (if is_upper c then char_of ((of_char c :: nat) + 32) else c)"

definition toUpperCase :: "string \<Rightarrow> string" where
  "toUpperCase s = map upper_char s"

definition toLowerCase :: "string \<Rightarrow> string" where
  "toLowerCase s = map lower_char s"

section \<open>Field-name transcoder\<close>

text \<open>
  \<^verbatim>\<open>snakeToCamel = str.replace(/([-_][a-z])/g, group => group.toUpperCase().replace('_', ''))\<close>:
  a left-to-right scan for non-overlapping two-character matches. A match that starts
  with an underscore becomes the upper-cased letter; a match that starts with a hyphen
  keeps the hyphen (only \<^verbatim>\<open>'_'\<close> is removed).
\<close>

fun snakeToCamel :: "string \<Rightarrow> string" where
  "snakeToCamel (c # d # cs) =
     (if (c = CHR ''-'' \<or> c = CHR ''_'') \<and> is_lower d
      then (if c = CHR ''_'' then [upper_char d] else [c, upper_char d]) @ snakeToCamel cs
      else c # snakeToCamel (d # cs))"
| "snakeToCamel cs = cs"

text \<open>
  \<^verbatim>\<open>camelToSnake = str.replace(/[A-Z]/g, letter => `_${letter.toLowerCase()}`)\<close>.
\<close>

definition camelToSnake :: "string \<Rightarrow> string" where
  "camelToSnake s = concat (map (\<lambda>c. if is_upper c then [CHR ''_'', lower_char c] else [c]) s)"

text \<open>
  Values handed to the transcoder. \<open>JObj\<close> is a plain object (one that passes the
  source's test \<^verbatim>\<open>obj !== null && obj.constructor === Object\<close>), given by its own
  enumerable properties in \<^verbatim>\<open>Object.keys\<close> order; \<open>JArr\<close> is an array. Everything
  else is a leaf for the transcoder: \<^verbatim>\<open>null\<close>, booleans, numbers, strings and objects
  of another class such as a \<^verbatim>\<open>File\<close> (given by its name). Numbers are only passed
  along, never computed with. A property whose value is \<^verbatim>\<open>undefined\<close> is outside the
  model (the transcoder reads \<^verbatim>\<open>constructor\<close> of every non-null value it visits).
\<close>

datatype json =
    JNull
  | JBool bool
  | JNum int
  | JStr string
  | JFile string
  | JArr "json list"
  | JObj "(string \<times> json) list"

text \<open>
  Writing a property: \<^verbatim>\<open>result[key] = v\<close> and \<^verbatim>\<open>{...result, [key]: v}\<close> replace the
  value of a key that is present (at its place) and append a key that is not. This is
  \<^const>\<open>AList.update\<close>.
\<close>

abbreviation obj_set :: "string \<Rightarrow> json \<Rightarrow> (string \<times> json) list \<Rightarrow> (string \<times> json) list" where
  "obj_set \<equiv> AList.update"

fun toCamel :: "json \<Rightarrow> json" where
  "toCamel (JArr xs) = JArr (map toCamel xs)"
| "toCamel (JObj kvs) =
     JObj (foldl (\<lambda>result (key, v). obj_set (snakeToCamel key) (toCamel v) result) [] kvs)"
| "toCamel obj = obj"

fun toSnake :: "json \<Rightarrow> json" where
  "toSnake (JArr xs) = JArr (map toSnake xs)"
| "toSnake (JObj kvs) =
     JObj (foldl (\<lambda>result (key, v).
             if key = ''password'' \<or> key = ''confirmPassword''
             then obj_set key v result
             else obj_set (camelToSnake key) (toSnake v) result) [] kvs)"
| "toSnake obj = obj"

text \<open>
  The two keys that \<^verbatim>\<open>toSnake\<close> passes through (\<^verbatim>\<open>key === 'password' || key === 'confirmPassword'\<close>).
\<close>

definition credential_key :: "string \<Rightarrow> bool" where
  "credential_key key = (key = ''password'' \<or> key = ''confirmPassword'')"

text \<open>The key that \<^verbatim>\<open>toSnake\<close> writes for a key of its input.\<close>

definition rewrite_key :: "string \<Rightarrow> string" where
  "rewrite_key key = (if credential_key key then key else camelToSnake key)"

text \<open>
  The two naming conventions. An underscore-separated key is made of lower-case letters,
  digits and underscores; a camel-cased key is made of letters and digits.
\<close>

definition snake_key :: "string \<Rightarrow> bool" where
  "snake_key key = list_all (\<lambda>c. is_lower c \<or> is_digit c \<or> c = CHR ''_'') key"

definition camel_key :: "string \<Rightarrow> bool" where
  "camel_key key = list_all (\<lambda>c. is_lower c \<or> is_upper c \<or> is_digit c) key"

text \<open>A property of every mapping key of a value, at every depth.\<close>

fun all_keys :: "(string \<Rightarrow> bool) \<Rightarrow> json \<Rightarrow> bool" where
  "all_keys P (JArr xs) = list_all (all_keys P) xs"
| "all_keys P (JObj kvs) = list_all (\<lambda>(key, v). P key \<and> all_keys P v) kvs"
| "all_keys P obj = True"

text \<open>
  The representation invariant of \<^const>\<open>JObj\<close>: the keys of an object are pairwise
  different, and no own property is named \<^verbatim>\<open>constructor\<close> (such an object fails the
  source's plain-object test and is a leaf) or \<^verbatim>\<open>__proto__\<close> (assigning to that name
  does not create a property). Objects with such properties are outside the model.
\<close>

fun plain_data :: "json \<Rightarrow> bool" where
  "plain_data (JArr xs) = list_all plain_data xs"
| "plain_data (JObj kvs) =
     (distinct (map fst kvs) \<and> ''constructor'' \<notin> set (map fst kvs)
      \<and> ''__proto__'' \<notin> set (map fst kvs) \<and> list_all (\<lambda>(key, v). plain_data v) kvs)"
| "plain_data obj = True"


section \<open>Session state\<close>

text \<open>
  The six values kept in local storage by \<^verbatim>\<open>useStickyState\<close>. Only the fields of an
  organizer and a collaborator that the modelled code reads are kept.
\<close>

record organizer =
  organizer_id :: string
  organizer_name :: string
  organizerCode :: string

record collaborator =
  collaborator_id :: string
  collaborator_companyId :: string

record session =
  loggedInOrganizer :: "organizer option"
  loggedInCollaborator :: "collaborator option"
  selectedEventId :: "string option"
  selectedRaffleId :: "string option"
  isSuperAdmin :: bool
  impersonatingFromAdmin :: bool

definition logout :: "session \<Rightarrow> session" where
  "logout s = s\<lparr>loggedInOrganizer := None, selectedEventId := None, selectedRaffleId := None\<rparr>"

definition logoutSuperAdmin :: "session \<Rightarrow> session" where
  "logoutSuperAdmin s = s\<lparr>isSuperAdmin := False\<rparr>"

definition logoutCollaborator :: "session \<Rightarrow> session" where
  "logoutCollaborator s = s\<lparr>loggedInCollaborator := None\<rparr>"

text \<open>
  The organizer that the context exposes:
  \<^verbatim>\<open>impersonatingFromAdmin ? loggedInOrganizer : (isSuperAdmin ? null : loggedInOrganizer)\<close>.
\<close>

definition value_loggedInOrganizer :: "session \<Rightarrow> organizer option" where
  "value_loggedInOrganizer s =
     (if impersonatingFromAdmin s then loggedInOrganizer s
      else (if isSuperAdmin s then None else loggedInOrganizer s))"

section \<open>The remote store\<close>

text \<open>
  The rows of the tables that the modelled operations read and write, as lists in table
  order. The \<^verbatim>\<open>id\<close> column is the primary key of its table. The quantity of a raffle
  is a column that can hold \<^verbatim>\<open>null\<close> (\<open>None\<close>).
\<close>

record event =
  event_id :: string
  event_name :: string
  event_date :: string
  event_organizerId :: string

record raffle =
  raffle_id :: string
  raffle_name :: string
  raffle_quantity :: "int option"
  raffle_code :: string
  raffle_eventId :: string

record participant =
  participant_id :: string
  participant_name :: string
  participant_email :: string
  participant_phone :: string
  participant_raffleId :: string
  isWinner :: bool
  drawnAt :: "string option"

record store =
  events :: "event list"
  raffles :: "raffle list"
  participants :: "participant list"

text \<open>
  What the store answers to a request: it serves it, or fails it with an error message
  (the \<^verbatim>\<open>error\<close> of the response). Every request of the modelled operations has its
  own answer. A write that fails changes nothing. A read that fails has no rows: its
  \<^verbatim>\<open>data\<close> is \<^verbatim>\<open>null\<close>, and so is its \<^verbatim>\<open>count\<close>.
\<close>

datatype verdict = Accepted | Rejected string

text \<open>
  The \<^verbatim>\<open>data\<close> of a query for a list of rows and the \<^verbatim>\<open>count\<close> of a query with
  \<^verbatim>\<open>{ count: 'exact', head: true }\<close>, for the rows that the query selects.
\<close>

definition select_rows :: "verdict \<Rightarrow> 'a list \<Rightarrow> 'a list option" where
  "select_rows answer rows = (case answer of Accepted \<Rightarrow> Some rows | Rejected err \<Rightarrow> None)"

definition count_rows :: "verdict \<Rightarrow> 'a list \<Rightarrow> nat option" where
  "count_rows answer rows =
     (case answer of Accepted \<Rightarrow> Some (length rows) | Rejected err \<Rightarrow> None)"

text \<open>
  \<^verbatim>\<open>.single()\<close> and \<^verbatim>\<open>.maybeSingle()\<close>: the \<^verbatim>\<open>data\<close> of the response is the row when
  the request is served and the query selects exactly one row, and \<^verbatim>\<open>null\<close> otherwise.
  (They differ in whether no row at all is reported as an error; the modelled code
  reads \<^verbatim>\<open>data\<close> only.)
\<close>

definition single :: "verdict \<Rightarrow> 'a list \<Rightarrow> 'a option" where
  "single answer rows =
     (case answer of
        Rejected err \<Rightarrow> None
      | Accepted \<Rightarrow> (case rows of [row] \<Rightarrow> Some row | _ \<Rightarrow> None))"

definition maybeSingle :: "verdict \<Rightarrow> 'a list \<Rightarrow> 'a option" where
  "maybeSingle answer rows =
     (case answer of
        Rejected err \<Rightarrow> None
      | Accepted \<Rightarrow> (case rows of [row] \<Rightarrow> Some row | _ \<Rightarrow> None))"

text \<open>
  \<^verbatim>\<open>.insert(row)\<close>: a rejected insert writes nothing and returns the error; the store
  also refuses a row whose id is taken (primary key). The id of the new row is the one
  the store generates for it.
\<close>

definition insert_event :: "verdict \<Rightarrow> event \<Rightarrow> store \<Rightarrow> string option \<times> store" where
  "insert_event answer row db =
     (case answer of
        Rejected err \<Rightarrow> (Some err, db)
      | Accepted \<Rightarrow>
          if event_id row \<in> set (map event_id (events db)) then (Some ''duplicate key'', db)
          else (None, db\<lparr>events := events db @ [row]\<rparr>))"

definition insert_raffle :: "verdict \<Rightarrow> raffle \<Rightarrow> store \<Rightarrow> string option \<times> store" where
  "insert_raffle answer row db =
     (case answer of
        Rejected err \<Rightarrow> (Some err, db)
      | Accepted \<Rightarrow>
          if raffle_id row \<in> set (map raffle_id (raffles db)) then (Some ''duplicate key'', db)
          else (None, db\<lparr>raffles := raffles db @ [row]\<rparr>))"

definition insert_participant :: "verdict \<Rightarrow> participant \<Rightarrow> store \<Rightarrow> string option \<times> store" where
  "insert_participant answer row db =
     (case answer of
        Rejected err \<Rightarrow> (Some err, db)
      | Accepted \<Rightarrow>
          if participant_id row \<in> set (map participant_id (participants db))
          then (Some ''duplicate key'', db)
          else (None, db\<lparr>participants := participants db @ [row]\<rparr>))"

text \<open>
  \<^verbatim>\<open>.update({ is_winner: true, drawn_at: now }).eq('id', id).select().single()\<close>: every row
  with that id is updated, the updated rows are returned, and \<^verbatim>\<open>data\<close> is the row if
  there is exactly one. A rejected update changes nothing and has no \<^verbatim>\<open>data\<close>.
\<close>

definition mark_winner :: "string \<Rightarrow> participant \<Rightarrow> participant" where
  "mark_winner now p = p\<lparr>isWinner := True, drawnAt := Some now\<rparr>"

definition update_winner :: "verdict \<Rightarrow> string \<Rightarrow> string \<Rightarrow> store \<Rightarrow> participant option \<times> store" where
  "update_winner answer now wid db =
     (case answer of
        Rejected err \<Rightarrow> (None, db)
      | Accepted \<Rightarrow>
          let rows = map (\<lambda>p. if participant_id p = wid then mark_winner now p else p)
                         (participants db)
          in (single Accepted (filter (\<lambda>p. participant_id p = wid) rows),
              db\<lparr>participants := rows\<rparr>))"

text \<open>
  The rows that the queries of \<^verbatim>\<open>addParticipant\<close> and \<^verbatim>\<open>drawWinner\<close> select: the
  raffles with an id, the participants of a raffle with an e-mail, the winners of a
  raffle and the participants of a raffle that have not won.
\<close>

definition raffles_with_id :: "string \<Rightarrow> store \<Rightarrow> raffle list" where
  "raffles_with_id rid db = filter (\<lambda>r. raffle_id r = rid) (raffles db)"

definition entries_with_email :: "string \<Rightarrow> string \<Rightarrow> store \<Rightarrow> participant list" where
  "entries_with_email email rid db =
     filter (\<lambda>p. participant_email p = email \<and> participant_raffleId p = rid) (participants db)"

definition winners :: "string \<Rightarrow> store \<Rightarrow> participant list" where
  "winners rid db =
     filter (\<lambda>p. participant_raffleId p = rid \<and> isWinner p = True) (participants db)"

definition count_winners :: "string \<Rightarrow> store \<Rightarrow> nat" where
  "count_winners rid db = length (winners rid db)"

definition eligible_participants :: "string \<Rightarrow> store \<Rightarrow> participant list" where
  "eligible_participants rid db =
     filter (\<lambda>p. participant_raffleId p = rid \<and> isWinner p = False) (participants db)"

section \<open>Registration and draw\<close>

text \<open>
  The user-facing messages of the modelled operations (the source has them in
  Portuguese), and the uniform \<^verbatim>\<open>{ success, message }\<close> result.
  \<^item> \<open>RaffleNotFound\<close>: "Sorteio nao encontrado."
  \<^item> \<open>EmailAlreadyRegistered\<close>: "Este e-mail ja esta cadastrado neste sorteio."
  \<^item> \<open>WinnerLimitReached name\<close>: "O sorteio para "name" ja atingiu o limite de ganhadores."
  \<^item> \<open>RegistrationError err\<close>: "Erro ao cadastrar: err"
  \<^item> \<open>Registered\<close>: "Cadastro realizado com sucesso!"
  \<^item> \<open>OrganizerNotLoggedIn\<close>: "Organizador nao esta logado."
  \<^item> \<open>EventError err\<close>: "Erro ao criar evento: err"
  \<^item> \<open>RaffleCodeInUse\<close>: "Este codigo de sorteio ja esta em uso."
  \<^item> \<open>RaffleError err\<close>: "Erro ao criar sorteio: err"
  \<^item> \<open>RaffleAdded name\<close>: "Sorteio "name" adicionado!"
  \<^item> \<open>FormIncomplete\<close>: "Por favor, preencha todos os campos obrigatorios."
  \<^item> \<open>PhotoUploadFailed\<close>: "Falha no upload da foto."
  \<^item> \<open>StoreError err\<close>: the error message of the store, as it is
  \<^item> \<open>OrganizerSaved updated\<close>: "Organizador atualizado/criado com sucesso!"
\<close>

datatype message =
    RaffleNotFound
  | EmailAlreadyRegistered
  | WinnerLimitReached string
  | RegistrationError string
  | Registered
  | OrganizerNotLoggedIn
  | EventError string
  | RaffleCodeInUse
  | RaffleError string
  | RaffleAdded string
  | FormIncomplete
  | PhotoUploadFailed
  | StoreError string
  | OrganizerSaved bool

record result =
  success :: bool
  message :: message

definition failure :: "message \<Rightarrow> result" where
  "failure m = \<lparr>success = False, message = m\<rparr>"

definition succeeded :: "message \<Rightarrow> result" where
  "succeeded m = \<lparr>success = True, message = m\<rparr>"

text \<open>The argument of \<^verbatim>\<open>addParticipant\<close>: a participant without \<^verbatim>\<open>id\<close> and \<^verbatim>\<open>isWinner\<close>.\<close>

record participantData =
  pd_name :: string
  pd_email :: string
  pd_phone :: string
  pd_raffleId :: string

text \<open>
  What the store answers to the four requests of \<^verbatim>\<open>addParticipant\<close>, in the order in
  which they are made: the lookup of the raffle, the lookup of an entry with the
  e-mail, the count of the winners, and the insert.
\<close>

record registerAnswers =
  raffleLookup :: verdict
  emailLookup :: verdict
  winnerCounting :: verdict
  participantInsert :: verdict

text \<open>
  \<^verbatim>\<open>winnerCount !== null && winnerCount >= raffle.quantity\<close>: a count that was not
  answered is not compared, and a quantity that is \<^verbatim>\<open>null\<close> is compared as 0.
\<close>

definition limit_reached :: "nat option \<Rightarrow> int option \<Rightarrow> bool" where
  "limit_reached winnerCount quantity =
     (case winnerCount of
        None \<Rightarrow> False
      | Some n \<Rightarrow> (case quantity of None \<Rightarrow> int n \<ge> 0 | Some q \<Rightarrow> int n \<ge> q))"

text \<open>
  \<^verbatim>\<open>addParticipant\<close>. \<open>answers\<close> are the store's answers and \<open>newId\<close> is the id the
  store gives the new row. The row is inserted with the fields of
  \<^verbatim>\<open>participantData\<close> as they are (the e-mail is lower-cased for the lookup only) and
  \<^verbatim>\<open>isWinner: false\<close>. The re-fetch after a success only refreshes the in-memory mirror.
\<close>

definition addParticipant ::
  "registerAnswers \<Rightarrow> string \<Rightarrow> participantData \<Rightarrow> store \<Rightarrow> result \<times> store" where
  "addParticipant answers newId participantData db =
     (case single (raffleLookup answers) (raffles_with_id (pd_raffleId participantData) db) of
        None \<Rightarrow> (failure RaffleNotFound, db)
      | Some raffle \<Rightarrow>
          (case maybeSingle (emailLookup answers)
                  (entries_with_email (toLowerCase (pd_email participantData))
                     (pd_raffleId participantData) db) of
             Some existing \<Rightarrow> (failure EmailAlreadyRegistered, db)
           | None \<Rightarrow>
               let winnerCount = count_rows (winnerCounting answers)
                                   (winners (pd_raffleId participantData) db) in
               if limit_reached winnerCount (raffle_quantity raffle)
               then (failure (WinnerLimitReached (raffle_name raffle)), db)
               else
                 (case insert_participant (participantInsert answers)
                         \<lparr>participant_id = newId,
                          participant_name = pd_name participantData,
                          participant_email = pd_email participantData,
                          participant_phone = pd_phone participantData,
                          participant_raffleId = pd_raffleId participantData,
                          isWinner = False, drawnAt = None\<rparr> db of
                    (Some err, db') \<Rightarrow> (failure (RegistrationError err), db')
                  | (None, db') \<Rightarrow> (succeeded Registered, db'))))"

text \<open>
  JavaScript numbers are double-precision floating-point numbers: the finite ones are
  the reals \<open>m * 2 ^ e\<close> with \<open>\<bar>m\<bar> < 2 ^ 53\<close> and \<open>-1074 \<le> e \<le> 971\<close>. An arithmetic
  operation returns a double nearest to the exact result (which one, when two are
  nearest, is left open).
\<close>

definition is_double :: "real \<Rightarrow> bool" where
  "is_double x = (\<exists>(m::int) (k::nat). \<bar>m\<bar> < 2 ^ 53 \<and>
      ((k \<le> 971 \<and> x = of_int m * 2 ^ k) \<or> (k \<le> 1074 \<and> x = of_int m / 2 ^ k)))"

definition nearest_double :: "real \<Rightarrow> real \<Rightarrow> bool" where
  "nearest_double y x = (is_double y \<and> (\<forall>d. is_double d \<longrightarrow> \<bar>y - x\<bar> \<le> \<bar>d - x\<bar>))"

text \<open>
  \<^verbatim>\<open>Math.random()\<close> returns a double \<open>random\<close> with \<open>0 \<le> random < 1\<close>, and the
  multiplication \<open>multiply\<close> of the machine rounds the product of \<open>random\<close> and the length of
  an array (an array has fewer than \<open>2 ^ 32\<close> elements) to a nearest double.
\<close>

definition machine_random :: "(real \<Rightarrow> real \<Rightarrow> real) \<Rightarrow> real \<Rightarrow> bool" where
  "machine_random multiply random =
     (is_double random \<and> 0 \<le> random \<and> random < 1 \<and>
      (\<forall>n::nat. n < 2 ^ 32 \<longrightarrow> nearest_double (multiply random (real n)) (random * real n)))"

text \<open>
  \<^verbatim>\<open>Math.floor(Math.random() * n)\<close>, for the value \<open>random\<close> that \<^verbatim>\<open>Math.random()\<close>
  returned and the multiplication \<open>multiply\<close> of the machine. Reading an array outside its
  bounds gives \<^verbatim>\<open>undefined\<close>, and reading a property of \<^verbatim>\<open>undefined\<close> throws a
  \<^verbatim>\<open>TypeError\<close>.
\<close>

definition random_index :: "(real \<Rightarrow> real \<Rightarrow> real) \<Rightarrow> real \<Rightarrow> nat \<Rightarrow> int" where
  "random_index multiply random n = \<lfloor>multiply random (real n)\<rfloor>"

definition at_index :: "'a list \<Rightarrow> int \<Rightarrow> 'a option" where
  "at_index xs i = (if 0 \<le> i \<and> i < int (length xs) then Some (xs ! nat i) else None)"

datatype js_error = TypeError

text \<open>
  \<^verbatim>\<open>drawWinner\<close>, for the selected raffle of the context (\<open>None\<close> when no raffle is
  selected), the multiplication of the machine, the value of \<^verbatim>\<open>Math.random()\<close>, the
  store's answer \<open>fetched\<close> to the query for the eligible participants, its answer
  \<open>answer\<close> to the update, and the timestamp \<open>now\<close>. The result is the returned
  participant and the store afterwards.
\<close>

definition drawWinner ::
  "(real \<Rightarrow> real \<Rightarrow> real) \<Rightarrow> real \<Rightarrow> verdict \<Rightarrow> verdict \<Rightarrow> string \<Rightarrow> raffle option \<Rightarrow> store
   \<Rightarrow> js_error + (participant option \<times> store)" where
  "drawWinner multiply random fetched answer now selectedRaffle db =
     (case selectedRaffle of
        None \<Rightarrow> Inr (None, db)
      | Some raffle \<Rightarrow>
          (case select_rows fetched (eligible_participants (raffle_id raffle) db) of
             None \<Rightarrow> Inr (None, db)
           | Some eligible \<Rightarrow>
               if length eligible = 0 then Inr (None, db)
               else
                 (case at_index eligible (random_index multiply random (length eligible)) of
                    None \<Rightarrow> Inl TypeError
                  | Some winnerData \<Rightarrow>
                      Inr (update_winner answer now (participant_id winnerData) db))))"

text \<open>
  Sequences of the two operations, each with its inputs. An operation that throws
  leaves the store as it was.
\<close>

datatype operation =
    AddParticipant registerAnswers string participantData
  | DrawWinner real verdict verdict string "raffle option"

fun apply_operation :: "(real \<Rightarrow> real \<Rightarrow> real) \<Rightarrow> operation \<Rightarrow> store \<Rightarrow> store" where
  "apply_operation multiply (AddParticipant answers newId participantData) db =
     snd (addParticipant answers newId participantData db)"
| "apply_operation multiply (DrawWinner random fetched answer now selectedRaffle) db =
     (case drawWinner multiply random fetched answer now selectedRaffle db of
        Inl err \<Rightarrow> db
      | Inr (winner, db') \<Rightarrow> db')"

fun run :: "(real \<Rightarrow> real \<Rightarrow> real) \<Rightarrow> operation list \<Rightarrow> store \<Rightarrow> store" where
  "run multiply [] db = db"
| "run multiply (op # ops) db = run multiply ops (apply_operation multiply op db)"

text \<open>Whether an operation is a draw on the raffle with the given id.\<close>

fun draws_on :: "string \<Rightarrow> operation \<Rightarrow> bool" where
  "draws_on rid (DrawWinner random fetched answer now (Some raffle)) = (raffle_id raffle = rid)"
| "draws_on rid op = False"

text \<open>Whether the e-mail of an operation, when it has one, is of ASCII characters.\<close>

fun ascii_operation :: "operation \<Rightarrow> bool" where
  "ascii_operation (AddParticipant answers newId participantData) = ascii (pd_email participantData)"
| "ascii_operation op = True"

section \<open>Raffle creation\<close>

text \<open>
  The argument of \<^verbatim>\<open>createEventWithRaffle\<close>. The quantity is the number that the form
  holds: an integer, or \<^verbatim>\<open>NaN\<close> (\<open>None\<close>) when \<^verbatim>\<open>parseInt\<close> found no number in the
  field. \<^verbatim>\<open>NaN\<close> is sent to the store as \<^verbatim>\<open>null\<close>.
\<close>

record raffleData =
  eventName :: string
  raffleName :: string
  raffleQuantity :: "int option"
  raffleCode :: string

text \<open>
  What the store answers to the three requests of \<^verbatim>\<open>createEventWithRaffle\<close>: the
  insert of the event (with the id it gives the new row and the current timestamp), the
  lookup of the code, and the insert of the raffle (with the id of the new row).
\<close>

record createAnswers =
  eventAnswer :: verdict
  newEventId :: string
  createdAt :: string
  codeLookup :: verdict
  raffleAnswer :: verdict
  newRaffleId :: string

text \<open>\<^verbatim>\<open>const fullRaffleCode = `${loggedInOrganizer.organizerCode}${data.raffleCode}`\<close>.\<close>

definition fullRaffleCode :: "organizer \<Rightarrow> raffleData \<Rightarrow> string" where
  "fullRaffleCode org data = organizerCode org @ raffleCode data"

text \<open>The raffles that the lookup of a code selects.\<close>

definition raffles_with_code :: "string \<Rightarrow> store \<Rightarrow> raffle list" where
  "raffles_with_code code db = filter (\<lambda>r. raffle_code r = code) (raffles db)"

text \<open>
  \<^verbatim>\<open>createEventWithRaffle\<close>, for the stored organizer and the selected event of the
  context. \<^verbatim>\<open>selectedEvent?.id\<close> is tested for truth only, so an absent event and an
  empty id are both the empty string here. The event, when one is created, is inserted
  before the code is looked up.
\<close>

definition createEventWithRaffle ::
  "createAnswers \<Rightarrow> organizer option \<Rightarrow> event option \<Rightarrow> raffleData \<Rightarrow> store \<Rightarrow> result \<times> store" where
  "createEventWithRaffle answers organizer selectedEvent data db =
     (case organizer of
        None \<Rightarrow> (failure OrganizerNotLoggedIn, db)
      | Some org \<Rightarrow>
          let selectedId = (case selectedEvent of Some ev \<Rightarrow> event_id ev | None \<Rightarrow> []) in
          (case (if selectedId = []
                 then insert_event (eventAnswer answers)
                        \<lparr>event_id = newEventId answers, event_name = eventName data,
                         event_date = createdAt answers, event_organizerId = organizer_id org\<rparr> db
                 else (None, db)) of
             (Some err, db1) \<Rightarrow> (failure (EventError err), db1)
           | (None, db1) \<Rightarrow>
               let eventId = (if selectedId = [] then newEventId answers else selectedId) in
               (case maybeSingle (codeLookup answers)
                       (raffles_with_code (fullRaffleCode org data) db1) of
                  Some existingRaffle \<Rightarrow> (failure RaffleCodeInUse, db1)
                | None \<Rightarrow>
                    (case insert_raffle (raffleAnswer answers)
                            \<lparr>raffle_id = newRaffleId answers, raffle_name = raffleName data,
                             raffle_quantity = raffleQuantity data,
                             raffle_code = fullRaffleCode org data,
                             raffle_eventId = eventId\<rparr> db1 of
                       (Some err, db2) \<Rightarrow> (failure (RaffleError err), db2)
                     | (None, db2) \<Rightarrow> (succeeded (RaffleAdded (raffleName data)), db2)))))"

text \<open>
  The form of the page that calls it. The raffle-code input is controlled by the state
  \<^verbatim>\<open>raffleCode\<close>, set by \<^verbatim>\<open>onChange={(e) => setRaffleCode(e.target.value.toUpperCase())}\<close>;
  \<^verbatim>\<open>handleSubmit\<close> checks the fields and passes the state on. A comparison with
  \<^verbatim>\<open>NaN\<close> is false, so \<^verbatim>\<open>raffleQuantity < 1\<close> does not turn \<^verbatim>\<open>NaN\<close> away.
\<close>

definition onChange_raffleCode :: "string \<Rightarrow> raffleData \<Rightarrow> raffleData" where
  "onChange_raffleCode typed form = form\<lparr>raffleCode := toUpperCase typed\<rparr>"

definition less_than_one :: "int option \<Rightarrow> bool" where
  "less_than_one quantity = (case quantity of None \<Rightarrow> False | Some q \<Rightarrow> q < 1)"

definition handleSubmit ::
  "createAnswers \<Rightarrow> organizer option \<Rightarrow> event option \<Rightarrow> raffleData \<Rightarrow> store \<Rightarrow> result \<times> store" where
  "handleSubmit answers organizer selectedEvent form db =
     (if eventName form = [] \<or> raffleName form = [] \<or> raffleCode form = []
         \<or> less_than_one (raffleQuantity form)
      then (failure FormIncomplete, db)
      else createEventWithRaffle answers organizer selectedEvent form db)"

section \<open>Mutations with an image\<close>

text \<open>
  The payloads of the save functions are untyped (\<^verbatim>\<open>any\<close>): a payload is the list of
  properties of a plain object. Reading a property that is absent gives \<^verbatim>\<open>undefined\<close>
  (\<open>None\<close>); \<open>truthy\<close> is JavaScript's conversion to a boolean.
\<close>

fun truthy :: "json option \<Rightarrow> bool" where
  "truthy None = False"
| "truthy (Some JNull) = False"
| "truthy (Some (JBool b)) = b"
| "truthy (Some (JNum n)) = (n \<noteq> 0)"
| "truthy (Some (JStr s)) = (s \<noteq> [])"
| "truthy (Some v) = True"

fun instanceof_File :: "json option \<Rightarrow> bool" where
  "instanceof_File (Some (JFile name)) = True"
| "instanceof_File v = False"

fun properties :: "json \<Rightarrow> (string \<times> json) list" where
  "properties (JObj kvs) = kvs"
| "properties v = []"

definition DEFAULT_IMAGE_URL :: string where
  "DEFAULT_IMAGE_URL = ''https://aisfizoyfpcisykarrnt.supabase.co/storage/v1/object/public/prospectaifeedback/WhatsApp%20Image%202025-09-12%20at%2000.14.26.jpeg''"

text \<open>
  \<^verbatim>\<open>uploadImage\<close> returns the public URL of the uploaded file, or \<^verbatim>\<open>null\<close> when the
  upload failed. Its outcome is a parameter \<open>upload\<close>: the URL for a file, or \<open>None\<close>.
  It is written as a JavaScript value by \<open>url_value\<close>.
\<close>

definition url_value :: "string option \<Rightarrow> json" where
  "url_value newUrl = (case newUrl of Some url \<Rightarrow> JStr url | None \<Rightarrow> JNull)"

definition uploadImage :: "(string \<Rightarrow> string option) \<Rightarrow> json option \<Rightarrow> string option" where
  "uploadImage upload file = (case file of Some (JFile name) \<Rightarrow> upload name | _ \<Rightarrow> None)"

text \<open>
  A row write that the store performed: the table, for an update the id of the row,
  and the payload. The argument \<^verbatim>\<open>id\<close> (here \<open>rowId\<close>) is optional and tested for truth.
\<close>

datatype row_write = InsertRow string json | UpdateRow string string json

definition id_given :: "string option \<Rightarrow> bool" where
  "id_given rowId = (case rowId of Some i \<Rightarrow> i \<noteq> [] | None \<Rightarrow> False)"

definition write_row :: "verdict \<Rightarrow> string \<Rightarrow> string option \<Rightarrow> json \<Rightarrow> string option \<times> row_write list" where
  "write_row answer table rowId payload =
     (case answer of
        Rejected err \<Rightarrow> (Some err, [])
      | Accepted \<Rightarrow> (None, [if id_given rowId then UpdateRow table (the rowId) payload
                              else InsertRow table payload]))"

text \<open>\<^verbatim>\<open>saveOrganizer\<close>: the result and the row writes performed.\<close>

definition saveOrganizer ::
  "(string \<Rightarrow> string option) \<Rightarrow> verdict \<Rightarrow> (string \<times> json) list \<Rightarrow> string option
   \<Rightarrow> result \<times> row_write list" where
  "saveOrganizer upload answer organizerData rowId =
     (let dataToSave = organizerData;
          photo = map_of dataToSave ''photoUrl''
      in
      case (if truthy photo \<and> instanceof_File photo
            then (let newUrl = uploadImage upload photo in
                  if truthy (Some (url_value newUrl))
                  then Some (obj_set ''photoUrl'' (url_value newUrl) dataToSave)
                  else None)
            else if \<not> id_given rowId \<and> \<not> truthy photo
            then Some (obj_set ''photoUrl'' (JStr DEFAULT_IMAGE_URL) dataToSave)
            else Some dataToSave) of
        None \<Rightarrow> (failure PhotoUploadFailed, [])
      | Some dataToSave1 \<Rightarrow>
          let dataToSave2 =
                (if truthy (map_of dataToSave1 ''password'')
                 then obj_set ''password_hash'' (the (map_of dataToSave1 ''password'')) dataToSave1
                 else dataToSave1);
              dataToSave3 = AList.delete ''password'' dataToSave2;
              snakeData = properties (toSnake (JObj dataToSave3));
              snakeData1 =
                (if id_given rowId \<and> \<not> truthy (map_of snakeData ''password_hash'')
                 then AList.delete ''password_hash'' snakeData else snakeData)
          in
          (case write_row answer ''organizers'' rowId (JObj snakeData1) of
             (Some err, writes) \<Rightarrow> (failure (StoreError err), writes)
           | (None, writes) \<Rightarrow> (succeeded (OrganizerSaved (id_given rowId)), writes)))"

text \<open>
  \<^verbatim>\<open>saveCompany\<close> returns nothing; the model returns the row writes performed.
  The result of the upload is assigned to \<^verbatim>\<open>logoUrl\<close> whatever it is, and the default
  is then taken when \<^verbatim>\<open>logoUrl\<close> is not truthy.
\<close>

definition saveCompany ::
  "(string \<Rightarrow> string option) \<Rightarrow> verdict \<Rightarrow> event option \<Rightarrow> (string \<times> json) list \<Rightarrow> string option
   \<Rightarrow> row_write list" where
  "saveCompany upload answer selectedEvent companyData rowId =
     (case selectedEvent of
        None \<Rightarrow> []
      | Some ev \<Rightarrow>
          let dataToSave = companyData;
              logo = map_of dataToSave ''logoUrl'';
              dataToSave1 =
                (if truthy logo \<and> instanceof_File logo
                 then obj_set ''logoUrl'' (url_value (uploadImage upload logo)) dataToSave
                 else dataToSave);
              dataToSave2 =
                (if \<not> truthy (map_of dataToSave1 ''logoUrl'')
                 then obj_set ''logoUrl'' (JStr DEFAULT_IMAGE_URL) dataToSave1
                 else dataToSave1);
              payload = obj_set ''event_id'' (JStr (event_id ev))
                          (properties (toSnake (JObj dataToSave2)))
          in snd (write_row answer ''companies'' rowId (JObj payload)))"

section \<open>The prize wheel\<close>

record prize =
  prize_id :: string
  prize_name :: string

text \<open>
  \<^verbatim>\<open>handleSpin\<close> of the public page and of the collaborator's page: the state of the
  component after the call (the timer that ends the spin is not part of it).
\<close>

record public_roleta =
  pub_isSpun :: bool
  pub_isSpinning :: bool
  pub_winner :: "prize option"
  pub_winningPrizeId :: "string option"

record collaborator_roleta =
  col_isSpinning :: bool
  col_winner :: "prize option"
  col_winningPrizeId :: "string option"

definition handleSpin_public ::
  "(real \<Rightarrow> real \<Rightarrow> real) \<Rightarrow> real \<Rightarrow> prize list \<Rightarrow> public_roleta \<Rightarrow> js_error + public_roleta" where
  "handleSpin_public multiply random prizes st =
     (if pub_isSpun st \<or> pub_isSpinning st \<or> length prizes < 2 then Inr st
      else
        let winnerIndex = random_index multiply random (length prizes) in
        (case at_index prizes winnerIndex of
           None \<Rightarrow> Inl TypeError
         | Some winnerData \<Rightarrow>
             Inr (st\<lparr>pub_isSpun := True, pub_winner := Some winnerData,
                     pub_winningPrizeId := Some (prize_id winnerData),
                     pub_isSpinning := True\<rparr>)))"

definition handleSpin_collaborator ::
  "(real \<Rightarrow> real \<Rightarrow> real) \<Rightarrow> real \<Rightarrow> prize list \<Rightarrow> collaborator_roleta \<Rightarrow> js_error + collaborator_roleta" where
  "handleSpin_collaborator multiply random prizes st =
     (if col_isSpinning st \<or> length prizes < 2 then Inr st
      else
        let winnerIndex = random_index multiply random (length prizes) in
        (case at_index prizes winnerIndex of
           None \<Rightarrow> Inl TypeError
         | Some winnerData \<Rightarrow>
             Inr (st\<lparr>col_winner := Some winnerData,
                     col_winningPrizeId := Some (prize_id winnerData),
                     col_isSpinning := True\<rparr>)))"

section \<open>Example data\<close>

text \<open>
  A raffle with quantity 2 and the same raffle with quantity 1, a store that holds one
  raffle and the given participants, a registration for that raffle, a participant
  row of it, and the answers of a store that serves every request of a registration.
\<close>

definition raffle_two :: raffle where
  "raffle_two = \<lparr>raffle_id = ''r1'', raffle_name = ''Monitor'', raffle_quantity = Some 2,
                 raffle_code = ''ABCPROMO4K'', raffle_eventId = ''e1''\<rparr>"

definition raffle_one :: raffle where
  "raffle_one = raffle_two\<lparr>raffle_quantity := Some 1\<rparr>"

definition store_of :: "raffle \<Rightarrow> participant list \<Rightarrow> store" where
  "store_of r ps = \<lparr>events = [], raffles = [r], participants = ps\<rparr>"

definition registration :: "string \<Rightarrow> string \<Rightarrow> participantData" where
  "registration name email =
     \<lparr>pd_name = name, pd_email = email, pd_phone = ''5550100'', pd_raffleId = ''r1''\<rparr>"

definition entry :: "string \<Rightarrow> string \<Rightarrow> string \<Rightarrow> bool \<Rightarrow> string option \<Rightarrow> participant" where
  "entry pid name email won drawn =
     \<lparr>participant_id = pid, participant_name = name, participant_email = email,
      participant_phone = ''5550100'', participant_raffleId = ''r1'', isWinner = won, drawnAt = drawn\<rparr>"

definition all_served :: registerAnswers where
  "all_served = \<lparr>raffleLookup = Accepted, emailLookup = Accepted, winnerCounting = Accepted,
                  participantInsert = Accepted\<rparr>"

text \<open>
  An organizer with code \<^verbatim>\<open>ABC\<close>, the form of the raffle page with a given code, the
  answers of the store to a creation, an event, a multiplication for the products that
  are doubles themselves, and an upload that fails.
\<close>

definition organizer_abc :: organizer where
  "organizer_abc = \<lparr>organizer_id = ''o1'', organizer_name = ''Triad'', organizerCode = ''ABC''\<rparr>"

definition raffle_form :: "string \<Rightarrow> raffleData" where
  "raffle_form code =
     \<lparr>eventName = ''Expo'', raffleName = ''Monitor'', raffleQuantity = Some 2, raffleCode = code\<rparr>"

definition answers_of ::
  "verdict \<Rightarrow> string \<Rightarrow> verdict \<Rightarrow> verdict \<Rightarrow> string \<Rightarrow> createAnswers" where
  "answers_of evAnswer evId lookup rfAnswer rfId =
     \<lparr>eventAnswer = evAnswer, newEventId = evId, createdAt = ''2025-09-12T10:00:00Z'',
      codeLookup = lookup, raffleAnswer = rfAnswer, newRaffleId = rfId\<rparr>"

definition event_expo :: event where
  "event_expo = \<lparr>event_id = ''e1'', event_name = ''Expo'', event_date = ''2025-09-12'',
                 event_organizerId = ''o1''\<rparr>"

definition exact_times :: "real \<Rightarrow> real \<Rightarrow> real" where
  "exact_times a b = a * b"

definition upload_fails :: "string \<Rightarrow> string option" where
  "upload_fails name = None"

section \<open>Properties of the transcoder\<close>

subsection \<open>Letters and keys\<close>

lemma of_char_upper_char:
  "is_lower c \<Longrightarrow> (of_char (upper_char c) :: nat) = of_char c - 32"
  unfolding is_lower_def upper_char_def Let_def by (simp add: less_imp_diff_less)

lemma of_char_lower_char:
  "is_upper c \<Longrightarrow> (of_char (lower_char c) :: nat) = of_char c + 32"
  unfolding is_upper_def lower_char_def Let_def by simp

lemma is_upper_upper_char: "is_lower c \<Longrightarrow> is_upper (upper_char c)"
  using of_char_upper_char [of c] unfolding is_upper_def is_lower_def Let_def by arith

lemma is_lower_lower_char: "is_upper c \<Longrightarrow> is_lower (lower_char c)"
  using of_char_lower_char [of c] unfolding is_upper_def is_lower_def Let_def by arith

lemma lower_upper_char: "is_lower c \<Longrightarrow> lower_char (upper_char c) = c"
proof -
  assume l: "is_lower c"
  have u: "is_upper (upper_char c)" using l by (rule is_upper_upper_char)
  have "(of_char (lower_char (upper_char c)) :: nat) = of_char (upper_char c) + 32"
    using u by (rule of_char_lower_char)
  also have "\<dots> = of_char c"
    using l of_char_upper_char [of c] unfolding is_lower_def Let_def by simp
  finally show ?thesis by simp
qed

lemma upper_lower_char: "is_upper c \<Longrightarrow> upper_char (lower_char c) = c"
proof -
  assume u: "is_upper c"
  have l: "is_lower (lower_char c)" using u by (rule is_lower_lower_char)
  have "(of_char (upper_char (lower_char c)) :: nat) = of_char (lower_char c) - 32"
    using l by (rule of_char_upper_char)
  also have "\<dots> = of_char c"
    using of_char_lower_char [OF u] by simp
  finally show ?thesis by simp
qed

lemma is_upper_not_lower: "is_upper c \<Longrightarrow> \<not> is_lower c"
  unfolding is_upper_def is_lower_def Let_def by simp

lemma separators_not_letters [simp]: "\<not> is_upper CHR ''_''" "\<not> is_lower CHR ''_''" "\<not> is_upper CHR ''-''" "\<not> is_lower CHR ''-''"
  unfolding is_upper_def is_lower_def Let_def by simp_all

lemma snakeToCamel_Cons_other:
  "c \<noteq> CHR ''-'' \<Longrightarrow> c \<noteq> CHR ''_'' \<Longrightarrow> snakeToCamel (c # cs) = c # snakeToCamel cs"
  by (cases cs) simp_all

lemma snakeToCamel_underscore_lower:
  "is_lower d \<Longrightarrow> snakeToCamel (CHR ''_'' # d # cs) = upper_char d # snakeToCamel cs"
  by simp

lemma camelToSnake_Nil [simp]: "camelToSnake [] = []"
  by (simp add: camelToSnake_def)

lemma camelToSnake_Cons:
  "camelToSnake (c # cs) = (if is_upper c then CHR ''_'' # lower_char c # camelToSnake cs else c # camelToSnake cs)"
  by (simp add: camelToSnake_def)

text \<open>Camel-cased to underscore-separated and back, on a key.\<close>

lemma snakeToCamel_camelToSnake:
  "CHR ''_'' \<notin> set s \<Longrightarrow> CHR ''-'' \<notin> set s \<Longrightarrow> snakeToCamel (camelToSnake s) = s"
proof (induction s)
  case Nil
  show ?case by simp
next
  case (Cons c s)
  then have IH: "snakeToCamel (camelToSnake s) = s" by simp
  from Cons.prems have c: "c \<noteq> CHR ''_''" "c \<noteq> CHR ''-''" by auto
  show ?case
  proof (cases "is_upper c")
    case True
    then show ?thesis
      by (simp add: camelToSnake_Cons is_lower_lower_char upper_lower_char IH)
  next
    case False
    then show ?thesis
      using c by (simp add: camelToSnake_Cons snakeToCamel_Cons_other IH)
  qed
qed

text \<open>Underscore-separated to camel-cased and back, on a key.\<close>

lemma camelToSnake_snakeToCamel:
  "\<forall>c\<in>set s. \<not> is_upper c \<and> c \<noteq> CHR ''-'' \<Longrightarrow> camelToSnake (snakeToCamel s) = s"
proof (induction s rule: snakeToCamel.induct)
  case (1 c d cs)
  show ?case
  proof (cases "(c = CHR ''-'' \<or> c = CHR ''_'') \<and> is_lower d")
    case True
    with "1.prems" have c: "c = CHR ''_''" by auto
    from True have d: "is_lower d" by simp
    have "camelToSnake (snakeToCamel cs) = cs" using "1.IH"(1) True "1.prems" by simp
    then show ?thesis using c d
      by (simp add: camelToSnake_Cons is_upper_upper_char lower_upper_char)
  next
    case False
    have "camelToSnake (snakeToCamel (d # cs)) = d # cs" using "1.IH"(2) False "1.prems" by simp
    moreover have "\<not> is_upper c" using "1.prems" by simp
    moreover have "snakeToCamel (c # d # cs) = c # snakeToCamel (d # cs)" using False by auto
    ultimately show ?thesis by (simp only: camelToSnake_Cons if_False)
  qed
qed (simp_all add: camelToSnake_Cons)

subsection \<open>Objects\<close>

text \<open>
  When the keys written are pairwise different, building the result property by property
  is a map over the properties.
\<close>

lemma update_fresh: "k \<notin> fst ` set al \<Longrightarrow> AList.update k v al = al @ [(k, v)]"
  by (induction al) auto

lemma foldl_update_distinct:
  "distinct (map fst acc @ map K kvs) \<Longrightarrow>
   foldl (\<lambda>result kv. AList.update (K kv) (V kv) result) acc kvs = acc @ map (\<lambda>kv. (K kv, V kv)) kvs"
proof (induction kvs arbitrary: acc)
  case Nil
  show ?case by simp
next
  case (Cons kv kvs)
  from Cons.prems have fresh: "K kv \<notin> fst ` set acc" by auto
  have d: "distinct (map fst (acc @ [(K kv, V kv)]) @ map K kvs)"
    using Cons.prems by auto
  show ?case
    using Cons.IH [OF d] by (simp add: update_fresh [OF fresh])
qed

lemma toCamel_JObj_map:
  assumes "distinct (map (\<lambda>kv. snakeToCamel (fst kv)) kvs)"
  shows "toCamel (JObj kvs) = JObj (map (\<lambda>kv. (snakeToCamel (fst kv), toCamel (snd kv))) kvs)"
proof -
  have "(\<lambda>result (key, v). obj_set (snakeToCamel key) (toCamel v) result)
      = (\<lambda>result kv. AList.update (snakeToCamel (fst kv)) (toCamel (snd kv)) result)"
    by (auto simp: fun_eq_iff)
  then show ?thesis
    using foldl_update_distinct [where acc = "[]" and K = "\<lambda>kv. snakeToCamel (fst kv)"
      and V = "\<lambda>kv. toCamel (snd kv)" and kvs = kvs] assms
    by simp
qed

lemma toSnake_JObj_map:
  assumes "distinct (map (\<lambda>kv. rewrite_key (fst kv)) kvs)"
  shows "toSnake (JObj kvs) =
         JObj (map (\<lambda>kv. (rewrite_key (fst kv), if credential_key (fst kv) then snd kv else toSnake (snd kv))) kvs)"
proof -
  have "foldl (\<lambda>result (key, v).
             if key = ''password'' \<or> key = ''confirmPassword''
             then obj_set key v result
             else obj_set (camelToSnake key) (toSnake v) result) [] kvs
      = foldl (\<lambda>result kv. AList.update (rewrite_key (fst kv))
             (if credential_key (fst kv) then snd kv else toSnake (snd kv)) result) [] kvs"
    by (rule arg_cong [where f = "\<lambda>f. foldl f [] kvs"])
       (auto simp: fun_eq_iff rewrite_key_def credential_key_def)
  then show ?thesis
    using foldl_update_distinct [where acc = "[]" and K = "\<lambda>kv. rewrite_key (fst kv)"
      and V = "\<lambda>kv. if credential_key (fst kv) then snd kv else toSnake (snd kv)" and kvs = kvs] assms
    by simp
qed

lemma snake_key_chars: "snake_key key \<Longrightarrow> \<forall>c\<in>set key. \<not> is_upper c \<and> c \<noteq> CHR ''-''"
  unfolding snake_key_def list_all_iff is_upper_def is_lower_def is_digit_def Let_def
  by auto

lemma camel_key_chars: "camel_key key \<Longrightarrow> CHR ''_'' \<notin> set key \<and> CHR ''-'' \<notin> set key"
  unfolding camel_key_def list_all_iff is_upper_def is_lower_def is_digit_def Let_def
  by auto

lemma snake_key_roundtrip: "snake_key key \<Longrightarrow> camelToSnake (snakeToCamel key) = key"
  by (rule camelToSnake_snakeToCamel) (rule snake_key_chars)

lemma camel_key_roundtrip: "camel_key key \<Longrightarrow> snakeToCamel (camelToSnake key) = key"
  using camel_key_chars [of key] by (simp add: snakeToCamel_camelToSnake)

lemma snakeToCamel_credential [simp]:
  "snakeToCamel ''password'' = ''password''" "snakeToCamel ''confirmPassword'' = ''confirmPassword''"
  by (simp_all add: is_lower_def)

lemma camelToSnake_credential [simp]:
  "camelToSnake ''password'' = ''password''" "camelToSnake ''confirmPassword'' = ''confirm_password''"
  by code_simp+

lemma camel_key_rewrite_roundtrip: "camel_key key \<Longrightarrow> snakeToCamel (rewrite_key key) = key"
  by (auto simp: rewrite_key_def credential_key_def camel_key_roundtrip)

lemma distinct_map_left_inverse:
  assumes "distinct xs" and "\<And>x. x \<in> set xs \<Longrightarrow> g (f x) = x"
  shows "distinct (map f xs)"
proof -
  have "inj_on f (set xs)"
    by (rule inj_on_inverseI [where g = g]) (rule assms(2))
  with assms(1) show ?thesis by (simp add: distinct_map)
qed

lemma snake_key_not_credential:
  assumes "snake_key key" "\<not> credential_key key" "key \<noteq> ''confirm_password''"
  shows "\<not> credential_key (snakeToCamel key)"
proof
  assume "credential_key (snakeToCamel key)"
  then have "camelToSnake (snakeToCamel key) = ''password''
             \<or> camelToSnake (snakeToCamel key) = ''confirm_password''"
    unfolding credential_key_def by auto
  then show False using assms by (simp add: snake_key_roundtrip credential_key_def)
qed

lemma distinct_rewritten_camel_keys:
  assumes "distinct (map fst kvs)" and "\<And>kv. kv \<in> set kvs \<Longrightarrow> camel_key (fst kv)"
  shows "distinct (map (\<lambda>kv. rewrite_key (fst kv)) kvs)"
proof -
  have "distinct (map rewrite_key (map fst kvs))"
    using assms
    by (intro distinct_map_left_inverse [where g = snakeToCamel])
       (auto simp: camel_key_rewrite_roundtrip)
  then show ?thesis by (simp add: comp_def)
qed



text \<open>
  C5, as stated, fails: the key \<^verbatim>\<open>confirm_password\<close> is underscore-separated and is not
  one of the two credential keys, but \<^const>\<open>toCamel\<close> turns it into \<^verbatim>\<open>confirmPassword\<close>,
  which \<^const>\<open>toSnake\<close> then passes through.
\<close>

theorem transcoder_roundtrip_counterexample:
  "\<not> (\<forall>j. plain_data j \<and> all_keys (\<lambda>key. snake_key key \<and> \<not> credential_key key) j
          \<longrightarrow> toSnake (toCamel j) = j)"
proof
  assume a: "\<forall>j. plain_data j \<and> all_keys (\<lambda>key. snake_key key \<and> \<not> credential_key key) j
          \<longrightarrow> toSnake (toCamel j) = j"
  let ?j = "JObj [(''confirm_password'', JStr ''s3cret'')]"
  have "plain_data ?j \<and> all_keys (\<lambda>key. snake_key key \<and> \<not> credential_key key) ?j"
    by code_simp
  with a have "toSnake (toCamel ?j) = ?j" by blast
  moreover have "toSnake (toCamel ?j) = JObj [(''confirmPassword'', JStr ''s3cret'')]"
    by code_simp
  ultimately show False by simp
qed

lemma toCamel_toSnake_id:
  "plain_data j \<Longrightarrow> all_keys (\<lambda>key. camel_key key \<and> \<not> credential_key key) j \<Longrightarrow>
   toCamel (toSnake j) = j"
proof (induction j)
  case (JArr xs)
  then show ?case by (simp add: list_all_iff map_idI)
next
  case (JObj kvs)
  have keys: "\<And>kv. kv \<in> set kvs \<Longrightarrow> camel_key (fst kv) \<and> \<not> credential_key (fst kv)"
    using JObj.prems(2) by (auto simp: list_all_iff)
  have d1: "distinct (map (\<lambda>kv. rewrite_key (fst kv)) kvs)"
    using JObj.prems(1) keys by (intro distinct_rewritten_camel_keys) simp_all
  let ?mid = "map (\<lambda>kv. (rewrite_key (fst kv),
                          if credential_key (fst kv) then snd kv else toSnake (snd kv))) kvs"
  have kback: "\<And>kv. kv \<in> set kvs \<Longrightarrow> snakeToCamel (rewrite_key (fst kv)) = fst kv"
    using keys by (simp add: camel_key_rewrite_roundtrip)
  have d2: "distinct (map (\<lambda>kv. snakeToCamel (fst kv)) ?mid)"
  proof -
    have eq: "map (\<lambda>kv. snakeToCamel (fst kv)) ?mid = map fst kvs"
      using kback by (simp add: comp_def)
    show ?thesis unfolding eq using JObj.prems(1) by simp
  qed
  have vals: "\<And>kv. kv \<in> set kvs \<Longrightarrow> toCamel (toSnake (snd kv)) = snd kv"
  proof -
    fix kv assume kv: "kv \<in> set kvs"
    obtain k v where [simp]: "kv = (k, v)" by (cases kv)
    have "plain_data v" "all_keys (\<lambda>key. camel_key key \<and> \<not> credential_key key) v"
      using JObj.prems kv by (auto simp: list_all_iff)
    then show "toCamel (toSnake (snd kv)) = snd kv"
      using JObj.IH [of kv v] kv by simp
  qed
  have "map (\<lambda>kv. (snakeToCamel (fst kv), toCamel (snd kv))) ?mid = kvs"
    using kback vals keys by (simp add: comp_def map_idI)
  then show ?case
    unfolding toSnake_JObj_map [OF d1] toCamel_JObj_map [OF d2] by simp
qed simp_all

lemma toSnake_toCamel_id:
  "plain_data j \<Longrightarrow>
   all_keys (\<lambda>key. snake_key key \<and> \<not> credential_key key \<and> key \<noteq> ''confirm_password'') j \<Longrightarrow>
   toSnake (toCamel j) = j"
proof (induction j)
  case (JArr xs)
  then show ?case by (simp add: list_all_iff map_idI)
next
  case (JObj kvs)
  let ?ok = "\<lambda>key. snake_key key \<and> \<not> credential_key key \<and> key \<noteq> ''confirm_password''"
  have keys: "\<And>kv. kv \<in> set kvs \<Longrightarrow> ?ok (fst kv)"
    using JObj.prems(2) by (auto simp: list_all_iff)
  have d1: "distinct (map (\<lambda>kv. snakeToCamel (fst kv)) kvs)"
  proof -
    have "distinct (map snakeToCamel (map fst kvs))"
      using JObj.prems(1) keys
      by (intro distinct_map_left_inverse [where g = camelToSnake])
         (auto simp: snake_key_roundtrip)
    then show ?thesis by (simp add: comp_def)
  qed
  let ?mid = "map (\<lambda>kv. (snakeToCamel (fst kv), toCamel (snd kv))) kvs"
  have kback: "\<And>kv. kv \<in> set kvs \<Longrightarrow> rewrite_key (snakeToCamel (fst kv)) = fst kv"
    using keys by (simp add: rewrite_key_def snake_key_not_credential snake_key_roundtrip)
  have d2: "distinct (map (\<lambda>kv. rewrite_key (fst kv)) ?mid)"
  proof -
    have eq: "map (\<lambda>kv. rewrite_key (fst kv)) ?mid = map fst kvs"
      using kback by (simp add: comp_def)
    show ?thesis unfolding eq using JObj.prems(1) by simp
  qed
  have vals: "\<And>kv. kv \<in> set kvs \<Longrightarrow> toSnake (toCamel (snd kv)) = snd kv"
  proof -
    fix kv assume kv: "kv \<in> set kvs"
    obtain k v where [simp]: "kv = (k, v)" by (cases kv)
    have "plain_data v" "all_keys ?ok v"
      using JObj.prems kv by (auto simp: list_all_iff)
    then show "toSnake (toCamel (snd kv)) = snd kv"
      using JObj.IH [of kv v] kv by simp
  qed
  have "map (\<lambda>kv. (rewrite_key (fst kv),
                    if credential_key (fst kv) then snd kv else toSnake (snd kv))) ?mid = kvs"
    using kback vals keys by (simp add: comp_def map_idI snake_key_not_credential)
  then show ?case
    unfolding toCamel_JObj_map [OF d1] toSnake_JObj_map [OF d2] by simp
qed simp_all

text \<open>
  C5, amended. For plain data whose keys are all underscore-separated, none of them a
  credential key or \<^verbatim>\<open>confirm_password\<close>, \<^const>\<open>toCamel\<close> followed by \<^const>\<open>toSnake\<close> gives
  the value back; for plain data whose keys are all camel-cased and none of them a
  credential key, \<^const>\<open>toSnake\<close> followed by \<^const>\<open>toCamel\<close> gives the value back: same
  keys, same order, same leaves.
\<close>

theorem transcoder_roundtrip:
  "(plain_data j \<and>
    all_keys (\<lambda>key. snake_key key \<and> \<not> credential_key key \<and> key \<noteq> ''confirm_password'') j
      \<longrightarrow> toSnake (toCamel j) = j) \<and>
   (plain_data j \<and> all_keys (\<lambda>key. camel_key key \<and> \<not> credential_key key) j
      \<longrightarrow> toCamel (toSnake j) = j)"
  using toSnake_toCamel_id [of j] toCamel_toSnake_id [of j] by blast

theorem transcoder_roundtrip_witness:
  "toCamel (JObj [(''user_name'', JStr ''Ana''),
                  (''entries'', JArr [JObj [(''raffle_id'', JNum 7), (''is_winner'', JBool False)]])])
     = JObj [(''userName'', JStr ''Ana''),
             (''entries'', JArr [JObj [(''raffleId'', JNum 7), (''isWinner'', JBool False)]])] \<and>
   toSnake (toCamel (JObj [(''user_name'', JStr ''Ana''),
                  (''entries'', JArr [JObj [(''raffle_id'', JNum 7), (''is_winner'', JBool False)]])]))
     = JObj [(''user_name'', JStr ''Ana''),
                  (''entries'', JArr [JObj [(''raffle_id'', JNum 7), (''is_winner'', JBool False)]])] \<and>
   toCamel (toSnake (JObj [(''userName'', JStr ''Ana''),
             (''entries'', JArr [JObj [(''raffleId'', JNum 7), (''isWinner'', JBool False)]])]))
     = JObj [(''userName'', JStr ''Ana''),
             (''entries'', JArr [JObj [(''raffleId'', JNum 7), (''isWinner'', JBool False)]])]"
proof -
  let ?s = "JObj [(''user_name'', JStr ''Ana''),
                  (''entries'', JArr [JObj [(''raffle_id'', JNum 7), (''is_winner'', JBool False)]])]"
  let ?c = "JObj [(''userName'', JStr ''Ana''),
             (''entries'', JArr [JObj [(''raffleId'', JNum 7), (''isWinner'', JBool False)]])]"
  have s: "plain_data ?s \<and>
    all_keys (\<lambda>key. snake_key key \<and> \<not> credential_key key \<and> key \<noteq> ''confirm_password'') ?s"
    by code_simp
  have c: "plain_data ?c \<and> all_keys (\<lambda>key. camel_key key \<and> \<not> credential_key key) ?c"
    by code_simp
  have m: "toCamel ?s = ?c" by code_simp
  from s transcoder_roundtrip [of ?s] have r1: "toSnake (toCamel ?s) = ?s" by blast
  from c transcoder_roundtrip [of ?c] have r2: "toCamel (toSnake ?c) = ?c" by blast
  show ?thesis by (intro conjI) (rule m, rule r1, rule r2)
qed

section \<open>Properties of the session state\<close>

text \<open>
  C4. The organizer that the context exposes: the stored organizer when impersonating,
  whatever the super-admin flag; otherwise none when the super-admin flag is set;
  otherwise the stored organizer.
\<close>

theorem effective_organizer_precedence:
  "(impersonatingFromAdmin s \<longrightarrow> value_loggedInOrganizer s = loggedInOrganizer s) \<and>
   (\<not> impersonatingFromAdmin s \<and> isSuperAdmin s \<longrightarrow> value_loggedInOrganizer s = None) \<and>
   (\<not> impersonatingFromAdmin s \<and> \<not> isSuperAdmin s
      \<longrightarrow> value_loggedInOrganizer s = loggedInOrganizer s)"
  by (simp add: value_loggedInOrganizer_def)

theorem effective_organizer_precedence_witness:
  "value_loggedInOrganizer
     \<lparr>loggedInOrganizer = Some \<lparr>organizer_id = ''o1'', organizer_name = ''O'', organizerCode = ''ABC''\<rparr>,
      loggedInCollaborator = None, selectedEventId = None, selectedRaffleId = None,
      isSuperAdmin = True, impersonatingFromAdmin = True\<rparr>
     = Some \<lparr>organizer_id = ''o1'', organizer_name = ''O'', organizerCode = ''ABC''\<rparr> \<and>
   value_loggedInOrganizer
     \<lparr>loggedInOrganizer = Some \<lparr>organizer_id = ''o1'', organizer_name = ''O'', organizerCode = ''ABC''\<rparr>,
      loggedInCollaborator = None, selectedEventId = None, selectedRaffleId = None,
      isSuperAdmin = True, impersonatingFromAdmin = False\<rparr>
     = None"
  using effective_organizer_precedence
    [of "\<lparr>loggedInOrganizer = Some \<lparr>organizer_id = ''o1'', organizer_name = ''O'', organizerCode = ''ABC''\<rparr>,
      loggedInCollaborator = None, selectedEventId = None, selectedRaffleId = None,
      isSuperAdmin = True, impersonatingFromAdmin = True\<rparr>"]
    effective_organizer_precedence
    [of "\<lparr>loggedInOrganizer = Some \<lparr>organizer_id = ''o1'', organizer_name = ''O'', organizerCode = ''ABC''\<rparr>,
      loggedInCollaborator = None, selectedEventId = None, selectedRaffleId = None,
      isSuperAdmin = True, impersonatingFromAdmin = False\<rparr>"]
  by simp

text \<open>
  C8. \<^const>\<open>logout\<close> clears the organizer and the two selections and leaves the
  collaborator, the super-admin flag and the impersonation flag as they are;
  \<^const>\<open>logoutSuperAdmin\<close> clears the super-admin flag only and \<^const>\<open>logoutCollaborator\<close>
  the collaborator only.
\<close>

theorem logout_frame:
  "loggedInOrganizer (logout s) = None \<and>
   selectedEventId (logout s) = None \<and>
   selectedRaffleId (logout s) = None \<and>
   loggedInCollaborator (logout s) = loggedInCollaborator s \<and>
   isSuperAdmin (logout s) = isSuperAdmin s \<and>
   impersonatingFromAdmin (logout s) = impersonatingFromAdmin s \<and>
   isSuperAdmin (logoutSuperAdmin s) = False \<and>
   loggedInOrganizer (logoutSuperAdmin s) = loggedInOrganizer s \<and>
   loggedInCollaborator (logoutSuperAdmin s) = loggedInCollaborator s \<and>
   selectedEventId (logoutSuperAdmin s) = selectedEventId s \<and>
   selectedRaffleId (logoutSuperAdmin s) = selectedRaffleId s \<and>
   impersonatingFromAdmin (logoutSuperAdmin s) = impersonatingFromAdmin s \<and>
   loggedInCollaborator (logoutCollaborator s) = None \<and>
   loggedInOrganizer (logoutCollaborator s) = loggedInOrganizer s \<and>
   selectedEventId (logoutCollaborator s) = selectedEventId s \<and>
   selectedRaffleId (logoutCollaborator s) = selectedRaffleId s \<and>
   isSuperAdmin (logoutCollaborator s) = isSuperAdmin s \<and>
   impersonatingFromAdmin (logoutCollaborator s) = impersonatingFromAdmin s"
  by (simp add: logout_def logoutSuperAdmin_def logoutCollaborator_def)

section \<open>Properties of the random selection\<close>

lemmas example_defs = raffle_two_def raffle_one_def store_of_def registration_def entry_def
  all_served_def

subsection \<open>Rounded products\<close>

lemma is_double_0: "is_double 0"
  unfolding is_double_def by (rule exI [of _ 0], rule exI [of _ 0]) simp

lemma is_double_int_div:
  "\<bar>m\<bar> < 2 ^ 53 \<Longrightarrow> k \<le> 1074 \<Longrightarrow> is_double (of_int m / 2 ^ k)"
  unfolding is_double_def by blast

lemma double_below_one:
  assumes "is_double r" "r < 1"
  shows "r \<le> 1 - 1 / 2 ^ 53"
proof -
  define P :: real where "P = 2 ^ 53"
  define Pi :: int where "Pi = 2 ^ 53"
  have P: "P = of_int Pi" "0 < P" "2 \<le> P" by (simp_all add: P_def Pi_def)
  from assms(1) obtain m :: int and k :: nat where m: "\<bar>m\<bar> < Pi"
    and r: "(k \<le> 971 \<and> r = of_int m * 2 ^ k) \<or> (k \<le> 1074 \<and> r = of_int m / 2 ^ k)"
    unfolding is_double_def Pi_def by blast
  have goal_iff: "r \<le> 1 - 1 / P \<longleftrightarrow> r * P \<le> P - 1"
    using P(2) by (simp add: field_simps)
  have "r * P \<le> P - 1"
    using r
  proof
    assume a: "k \<le> 971 \<and> r = of_int m * 2 ^ k"
    then have "r = of_int (m * 2 ^ k)" by simp
    with assms(2) have "of_int (m * 2 ^ k) < (1::real)" by simp
    then have "m * 2 ^ k < 1" by linarith
    then have "m * 2 ^ k \<le> 0" by simp
    then have "(of_int (m * 2 ^ k) :: real) \<le> 0" by (simp only: of_int_le_0_iff)
    then have "r \<le> 0" using a by simp
    then have "r * P \<le> 0" using P(2) by (simp add: mult_nonpos_nonneg)
    then show ?thesis using P(3) by linarith
  next
    assume a: "k \<le> 1074 \<and> r = of_int m / 2 ^ k"
    show ?thesis
    proof (cases "k \<le> 53")
      case True
      then obtain j where j: "53 = k + j" using le_Suc_ex by blast
      have Pkj: "P = 2 ^ k * 2 ^ j" unfolding P_def j by (rule power_add)
      have "r * P = of_int m / 2 ^ k * (2 ^ k * 2 ^ j)"
        using a Pkj by simp
      also have "\<dots> = of_int (m * 2 ^ j)" by simp
      finally have e: "r * P = of_int (m * 2 ^ j)" .
      have "r * P < 1 * P" using assms(2) P(2) by (intro mult_strict_right_mono)
      then have "(of_int (m * 2 ^ j) :: real) < of_int Pi" using e P(1) by simp
      then have "m * 2 ^ j < Pi" by (simp only: of_int_less_iff)
      then have "m * 2 ^ j \<le> Pi - 1" by simp
      then have "(of_int (m * 2 ^ j) :: real) \<le> of_int (Pi - 1)" by (simp only: of_int_le_iff)
      then show ?thesis using e P(1) by simp
    next
      case False
      then obtain j where j: "k = 54 + j" using le_Suc_ex [of 54 k] by auto
      have k2: "(2::real) ^ k = 2 * P * 2 ^ j" unfolding P_def j by (simp add: power_add)
      have j1: "(1::real) \<le> 2 ^ j" by simp
      have mle: "(of_int m :: real) < P" using m P(1) by simp
      have "r * P = of_int m * P / (2 * P * 2 ^ j)" using a k2 by simp
      also have "\<dots> = of_int m / (2 * 2 ^ j)" using P(2) by simp
      finally have e: "r * P = of_int m / (2 * 2 ^ j)" .
      have "of_int m / (2 * 2 ^ j) \<le> P / (2 * 2 ^ j)"
        using mle by (intro divide_right_mono) simp_all
      also have "\<dots> \<le> P / 2"
        using j1 P(2) by (intro divide_left_mono) simp_all
      finally have "r * P \<le> P / 2" using e by simp
      then show ?thesis using P(3) by linarith
    qed
  qed
  then show ?thesis using goal_iff unfolding P_def by simp
qed

lemma nearest_double_nonneg:
  assumes "nearest_double y x" "0 \<le> x"
  shows "0 \<le> y"
proof -
  have "\<bar>y - x\<bar> \<le> \<bar>0 - x\<bar>" using assms(1) is_double_0 unfolding nearest_double_def by blast
  then show ?thesis using assms(2) by linarith
qed

lemma nearest_double_less:
  assumes "nearest_double y x" "is_double d" "\<bar>d - x\<bar> < b - x"
  shows "y < b"
proof -
  have "\<bar>y - x\<bar> \<le> \<bar>d - x\<bar>" using assms(1,2) unfolding nearest_double_def by blast
  then show ?thesis using assms(3) by linarith
qed

lemma double_below_length:
  assumes n: "0 < n" "n \<le> 2 ^ 53"
  shows "\<exists>d. is_double d \<and> (\<forall>p. p \<le> real n - real n / 2 ^ 53 \<longrightarrow> \<bar>d - p\<bar> < real n - p)"
proof -
  define P :: real where "P = 2 ^ 53"
  have P0: "0 < P" by (simp add: P_def)
  define k where "k = (LEAST k. n \<le> 2 ^ k)"
  have nk: "n \<le> 2 ^ k" unfolding k_def using n(2) by (rule LeastI)
  have k53: "k \<le> 53" unfolding k_def using n(2) by (rule Least_le)
  have half: "2 ^ k < 2 * n"
  proof (cases k)
    case 0
    then show ?thesis using n(1) by simp
  next
    case (Suc k')
    have "\<not> n \<le> 2 ^ k'"
      using not_less_Least [of k' "\<lambda>k. n \<le> 2 ^ k"] Suc unfolding k_def by simp
    then show ?thesis using Suc by simp
  qed
  obtain j where j: "53 = k + j" using k53 le_Suc_ex by blast
  have Pkj: "P = 2 ^ k * 2 ^ j" unfolding P_def j by (rule power_add)
  define m :: int where "m = int n * 2 ^ j - 1"
  define d :: real where "d = of_int m / 2 ^ j"
  have "int n \<le> int (2 ^ k)" using nk by (simp only: of_nat_le_iff)
  then have "int n \<le> 2 ^ k" by simp
  then have "int n * 2 ^ j \<le> 2 ^ k * 2 ^ j"
    by (intro mult_right_mono) simp_all
  also have "\<dots> = (2::int) ^ 53" unfolding j by (rule power_add [symmetric])
  finally have up: "int n * 2 ^ j \<le> 2 ^ 53" .
  have "1 \<le> int n * 2 ^ j" using n(1) by (simp add: int_one_le_iff_zero_less)
  then have m: "\<bar>m\<bar> < 2 ^ 53" using up unfolding m_def by linarith
  have dd: "is_double d"
    unfolding d_def using m j by (intro is_double_int_div) simp_all
  have dn: "d = real n - 1 / 2 ^ j"
    unfolding d_def m_def by (simp add: field_simps)
  have s: "1 / 2 ^ j = 2 ^ k / P" unfolding Pkj by simp
  have s2: "2 ^ k / P < 2 * (real n / P)"
  proof -
    have "real (2 ^ k) < real (2 * n)" using half by (simp only: of_nat_less_iff)
    then have "(2::real) ^ k < 2 * real n" by simp
    then have "2 ^ k / P < 2 * real n / P" using P0 by (rule divide_strict_right_mono)
    then show ?thesis by simp
  qed
  have "\<bar>d - p\<bar> < real n - p" if p: "p \<le> real n - real n / P" for p
  proof -
    have spos: "0 < 2 ^ k / P" using P0 by simp
    show ?thesis using p s2 spos unfolding dn s by linarith
  qed
  then show ?thesis using dd unfolding P_def by blast
qed

lemma rounded_product_in_range:
  assumes "is_double r" "0 \<le> r" "r < 1" "0 < n" "n \<le> 2 ^ 53"
    and "nearest_double y (r * real n)"
  shows "0 \<le> y" and "y < real n"
proof -
  show "0 \<le> y"
    using assms(6) by (rule nearest_double_nonneg) (simp add: assms(2))
  have r: "r \<le> 1 - 1 / 2 ^ 53" using assms(1,3) by (rule double_below_one)
  have "r * real n \<le> (1 - 1 / 2 ^ 53) * real n"
    using r by (intro mult_right_mono) simp_all
  then have p: "r * real n \<le> real n - real n / 2 ^ 53" by (simp add: algebra_simps)
  from double_below_length [OF assms(4,5)] obtain d where
    d: "is_double d" "\<bar>d - r * real n\<bar> < real n - r * real n" using p by blast
  show "y < real n" using assms(6) d by (rule nearest_double_less)
qed

lemma machine_random_exact_half: "machine_random exact_times (1/2)"
proof -
  have h: "is_double (1/2)"
    using is_double_int_div [of 1 1] by simp
  have "nearest_double (exact_times (1/2) (real n)) (1/2 * real n)" if "n < 2 ^ 32" for n :: nat
  proof -
    have "\<bar>int n\<bar> < 2 ^ 53" using that by simp
    then have "is_double (of_int (int n) / 2 ^ 1)" by (rule is_double_int_div) simp
    then have "is_double (1/2 * real n)" by simp
    then show ?thesis by (simp add: nearest_double_def exact_times_def)
  qed
  then show ?thesis using h by (simp add: machine_random_def)
qed

subsection \<open>The index\<close>

lemma random_index_bounds:
  assumes "machine_random multiply random" "0 < n" "n < 2 ^ 32"
  shows "0 \<le> random_index multiply random n" "random_index multiply random n < int n"
proof -
  from assms(1) have r: "is_double random" "0 \<le> random" "random < 1"
    and y: "nearest_double (multiply random (real n)) (random * real n)"
    using assms(3) by (simp_all add: machine_random_def)
  have "n \<le> 2 ^ 53" using assms(3) by simp
  note b = rounded_product_in_range [OF r assms(2) this y]
  show "0 \<le> random_index multiply random n" using b(1) by (simp add: random_index_def)
  have "multiply random (real n) < of_int (int n)" using b(2) by simp
  then show "random_index multiply random n < int n"
    unfolding random_index_def by (simp only: floor_less_iff)
qed

lemma at_index_random:
  assumes "machine_random multiply random" "xs \<noteq> []" "length xs < 2 ^ 32"
  shows "\<exists>x\<in>set xs. at_index xs (random_index multiply random (length xs)) = Some x"
proof -
  have n: "0 < length xs" using assms(2) by simp
  note b = random_index_bounds [OF assms(1) n assms(3)]
  have "nat (random_index multiply random (length xs)) < length xs" using b by simp
  then have "xs ! nat (random_index multiply random (length xs)) \<in> set xs" by simp
  then show ?thesis using b by (simp add: at_index_def)
qed

lemma eligible_participants_length:
  "length (eligible_participants rid db) \<le> length (participants db)"
  by (simp add: eligible_participants_def)

lemma drawWinner_no_TypeError:
  assumes "machine_random multiply random" "length (participants db) < 2 ^ 32"
  shows "drawWinner multiply random fetched answer now selectedRaffle db \<noteq> Inl TypeError"
proof (cases selectedRaffle)
  case None
  then show ?thesis by (simp add: drawWinner_def)
next
  case (Some raffle)
  show ?thesis
  proof (cases "fetched = Accepted \<and> eligible_participants (raffle_id raffle) db \<noteq> []")
    case False
    then show ?thesis using Some
      by (cases fetched) (auto simp add: drawWinner_def select_rows_def)
  next
    case True
    then have ne: "eligible_participants (raffle_id raffle) db \<noteq> []" by simp
    have "length (eligible_participants (raffle_id raffle) db) < 2 ^ 32"
      using eligible_participants_length [of "raffle_id raffle" db] assms(2) by linarith
    from at_index_random [OF assms(1) ne this] obtain w where
      "at_index (eligible_participants (raffle_id raffle) db)
         (random_index multiply random (length (eligible_participants (raffle_id raffle) db))) = Some w"
      by blast
    then show ?thesis using Some True by (simp add: drawWinner_def select_rows_def Let_def)
  qed
qed

lemma handleSpin_public_no_TypeError:
  assumes "machine_random multiply random" "length prizes < 2 ^ 32"
  shows "handleSpin_public multiply random prizes st \<noteq> Inl TypeError"
proof (cases "pub_isSpun st \<or> pub_isSpinning st \<or> length prizes < 2")
  case True
  then show ?thesis by (auto simp add: handleSpin_public_def)
next
  case False
  then have "prizes \<noteq> []" by auto
  from at_index_random [OF assms(1) this assms(2)] obtain w where
    "at_index prizes (random_index multiply random (length prizes)) = Some w" by blast
  then show ?thesis using False by (simp add: handleSpin_public_def Let_def)
qed

lemma handleSpin_collaborator_no_TypeError:
  assumes "machine_random multiply random" "length prizes < 2 ^ 32"
  shows "handleSpin_collaborator multiply random prizes st \<noteq> Inl TypeError"
proof (cases "col_isSpinning st \<or> length prizes < 2")
  case True
  then show ?thesis by (auto simp add: handleSpin_collaborator_def)
next
  case False
  then have "prizes \<noteq> []" by auto
  from at_index_random [OF assms(1) this assms(2)] obtain w where
    "at_index prizes (random_index multiply random (length prizes)) = Some w" by blast
  then show ?thesis using False by (simp add: handleSpin_collaborator_def Let_def)
qed

text \<open>
  C10. Every random selection is in bounds. For a value \<open>random\<close> of
  \<^verbatim>\<open>Math.random()\<close>, a double with \<open>0 \<le> random < 1\<close>, and an array of \<open>n > 0\<close> elements,
  the index \<^verbatim>\<open>Math.floor(random * n)\<close>, computed with the rounding multiplication of the
  machine, is at least 0 and less than \<open>n\<close>, so the element read exists: for the
  eligible participants of \<^const>\<open>drawWinner\<close> and for the prizes of the two
  \<^verbatim>\<open>handleSpin\<close>. The empty list, and a list of fewer than two prizes, is turned away
  before any read, and none of the three functions throws.
\<close>

theorem random_selection_in_bounds:
  assumes "machine_random multiply random"
    and "n < 2 ^ 32" and "length eligible < 2 ^ 32" and "length prizes < 2 ^ 32"
    and "length (participants db) < 2 ^ 32"
  shows "(0 < n \<longrightarrow> 0 \<le> random_index multiply random n \<and> random_index multiply random n < int n) \<and>
         (eligible \<noteq> [] \<longrightarrow>
            (\<exists>w\<in>set eligible.
               at_index eligible (random_index multiply random (length eligible)) = Some w)) \<and>
         (2 \<le> length prizes \<longrightarrow>
            (\<exists>w\<in>set prizes.
               at_index prizes (random_index multiply random (length prizes)) = Some w)) \<and>
         drawWinner multiply random fetched answer now selectedRaffle db \<noteq> Inl TypeError \<and>
         handleSpin_public multiply random prizes pst \<noteq> Inl TypeError \<and>
         handleSpin_collaborator multiply random prizes cst \<noteq> Inl TypeError \<and>
         (length prizes < 2 \<longrightarrow>
            handleSpin_public multiply random prizes pst = Inr pst \<and>
            handleSpin_collaborator multiply random prizes cst = Inr cst)"
proof -
  have a: "0 < n \<longrightarrow> 0 \<le> random_index multiply random n \<and> random_index multiply random n < int n"
    using random_index_bounds [OF assms(1) _ assms(2)] by blast
  have b: "eligible \<noteq> [] \<longrightarrow>
            (\<exists>w\<in>set eligible.
               at_index eligible (random_index multiply random (length eligible)) = Some w)"
    using at_index_random [OF assms(1) _ assms(3)] by blast
  have c: "2 \<le> length prizes \<longrightarrow>
            (\<exists>w\<in>set prizes.
               at_index prizes (random_index multiply random (length prizes)) = Some w)"
  proof
    assume "2 \<le> length prizes"
    then have "prizes \<noteq> []" by auto
    then show "\<exists>w\<in>set prizes.
                 at_index prizes (random_index multiply random (length prizes)) = Some w"
      using assms(4) by (intro at_index_random [OF assms(1)])
  qed
  have d: "length prizes < 2 \<longrightarrow>
            handleSpin_public multiply random prizes pst = Inr pst \<and>
            handleSpin_collaborator multiply random prizes cst = Inr cst"
    by (simp add: handleSpin_public_def handleSpin_collaborator_def)
  note e = drawWinner_no_TypeError [OF assms(1,5), of fetched answer now selectedRaffle]
  note f = handleSpin_public_no_TypeError [OF assms(1,4), of pst]
  note g = handleSpin_collaborator_no_TypeError [OF assms(1,4), of cst]
  show ?thesis by (intro conjI) (rule a, rule b, rule c, rule e, rule f, rule g, rule d)
qed

theorem random_selection_in_bounds_witness:
  "random_index exact_times (1/2) 3 = 1 \<and>
   at_index [entry ''p1'' ''Ana'' ''ana@example.com'' False None,
             entry ''p2'' ''Bob'' ''bob@example.com'' False None,
             entry ''p3'' ''Cid'' ''cid@example.com'' False None]
       (random_index exact_times (1/2) 3)
     = Some (entry ''p2'' ''Bob'' ''bob@example.com'' False None) \<and>
   handleSpin_public exact_times (1/2)
      [\<lparr>prize_id = ''z1'', prize_name = ''Mug''\<rparr>, \<lparr>prize_id = ''z2'', prize_name = ''Cap''\<rparr>,
       \<lparr>prize_id = ''z3'', prize_name = ''Pen''\<rparr>]
      \<lparr>pub_isSpun = False, pub_isSpinning = False, pub_winner = None, pub_winningPrizeId = None\<rparr>
     \<noteq> Inl TypeError \<and>
   handleSpin_public exact_times (1/2) [\<lparr>prize_id = ''z1'', prize_name = ''Mug''\<rparr>]
      \<lparr>pub_isSpun = False, pub_isSpinning = False, pub_winner = None, pub_winningPrizeId = None\<rparr>
     = Inr \<lparr>pub_isSpun = False, pub_isSpinning = False, pub_winner = None, pub_winningPrizeId = None\<rparr>"
proof -
  let ?three = "[\<lparr>prize_id = ''z1'', prize_name = ''Mug''\<rparr>, \<lparr>prize_id = ''z2'', prize_name = ''Cap''\<rparr>,
       \<lparr>prize_id = ''z3'', prize_name = ''Pen''\<rparr>]"
  let ?one = "[\<lparr>prize_id = ''z1'', prize_name = ''Mug''\<rparr>]"
  let ?st = "\<lparr>pub_isSpun = False, pub_isSpinning = False, pub_winner = None, pub_winningPrizeId = None\<rparr>"
  let ?db = "store_of raffle_two []"
  have n: "(3::nat) < 2 ^ 32" by simp
  have l0: "length ([] :: participant list) < 2 ^ 32" by simp
  have l3: "length ?three < 2 ^ 32" by simp
  have l1: "length ?one < 2 ^ 32" by simp
  have ld: "length (participants ?db) < 2 ^ 32" by (simp add: example_defs)
  note t3 = random_selection_in_bounds [OF machine_random_exact_half n l0 l3 ld, where pst = ?st]
  note t1 = random_selection_in_bounds [OF machine_random_exact_half n l0 l1 ld, where pst = ?st]
  have a: "random_index exact_times (1/2) 3 = 1" by (simp add: random_index_def exact_times_def)
  have b: "at_index [entry ''p1'' ''Ana'' ''ana@example.com'' False None,
             entry ''p2'' ''Bob'' ''bob@example.com'' False None,
             entry ''p3'' ''Cid'' ''cid@example.com'' False None]
       (random_index exact_times (1/2) 3)
     = Some (entry ''p2'' ''Bob'' ''bob@example.com'' False None)"
    unfolding a by (simp add: at_index_def)
  note c = t3 [THEN conjunct2, THEN conjunct2, THEN conjunct2, THEN conjunct2, THEN conjunct1]
  have lt: "length ?one < 2" by simp
  note d = t1 [THEN conjunct2, THEN conjunct2, THEN conjunct2, THEN conjunct2, THEN conjunct2,
      THEN conjunct2, THEN mp, OF lt, THEN conjunct1]
  show ?thesis by (intro conjI) (rule a, rule b, rule c, rule d)
qed

section \<open>Properties of registration and draw\<close>

subsection \<open>Queries and writes\<close>

lemma filter_key_unique:
  "distinct (map f xs) \<Longrightarrow> x \<in> set xs \<Longrightarrow> filter (\<lambda>y. f y = f x) xs = [x]"
proof (induction xs)
  case Nil
  then show ?case by simp
next
  case (Cons a xs)
  show ?case
  proof (cases "a = x")
    case True
    from Cons.prems(1) True have "f x \<notin> f ` set xs" by simp
    then have "\<forall>y\<in>set xs. f y \<noteq> f x" by (metis imageI)
    then have "filter (\<lambda>y. f y = f x) xs = []" by (simp add: filter_empty_conv)
    then show ?thesis using True by simp
  next
    case False
    then have x: "x \<in> set xs" using Cons.prems(2) by simp
    then have "f a \<noteq> f x" using Cons.prems(1) by auto
    then show ?thesis using Cons.IH x Cons.prems(1) by simp
  qed
qed

lemma single_Some_iff: "single answer rows = Some r \<longleftrightarrow> answer = Accepted \<and> rows = [r]"
  by (auto simp: single_def split: verdict.splits list.splits)

lemma maybeSingle_Some_iff: "maybeSingle answer rows = Some r \<longleftrightarrow> answer = Accepted \<and> rows = [r]"
  by (auto simp: maybeSingle_def split: verdict.splits list.splits)

lemma maybeSingle_Nil [simp]: "maybeSingle answer [] = None"
  by (cases answer) (simp_all add: maybeSingle_def)

lemma maybeSingle_Rejected [simp]: "maybeSingle (Rejected err) rows = None"
  by (simp add: maybeSingle_def)

lemma maybeSingle_one:
  assumes "length rows = 1"
  shows "\<exists>row. maybeSingle Accepted rows = Some row"
proof -
  from assms obtain row where "rows = [row]" by (cases rows) auto
  then show ?thesis by (simp add: maybeSingle_def)
qed

lemma raffle_lookup_found:
  assumes "distinct (map raffle_id (raffles db))" "r \<in> set (raffles db)" "raffle_id r = rid"
  shows "single Accepted (raffles_with_id rid db) = Some r"
proof -
  have "filter (\<lambda>y. raffle_id y = raffle_id r) (raffles db) = [r]"
    by (rule filter_key_unique [OF assms(1,2)])
  then show ?thesis using assms(3) by (simp add: single_def raffles_with_id_def)
qed

lemma raffle_lookup_missing:
  assumes "(\<exists>err. answer = Rejected err) \<or> \<not> (\<exists>r\<in>set (raffles db). raffle_id r = rid)"
  shows "single answer (raffles_with_id rid db) = None"
proof (cases answer)
  case Accepted
  with assms have "raffles_with_id rid db = []"
    by (auto simp: raffles_with_id_def filter_empty_conv)
  then show ?thesis by (simp add: single_def Accepted)
next
  case (Rejected err)
  then show ?thesis by (simp add: single_def)
qed

lemma raffle_lookup_SomeD:
  assumes "single answer (raffles_with_id rid db) = Some r"
  shows "r \<in> set (raffles db)" "raffle_id r = rid"
proof -
  have "filter (\<lambda>r. raffle_id r = rid) (raffles db) = [r]"
    using assms by (simp add: single_Some_iff raffles_with_id_def)
  then have "r \<in> set (filter (\<lambda>r. raffle_id r = rid) (raffles db))" by simp
  then show "r \<in> set (raffles db)" "raffle_id r = rid" by simp_all
qed

lemma entries_with_email_none:
  assumes "\<not> (\<exists>p\<in>set (participants db). participant_raffleId p = rid \<and> participant_email p = email)"
  shows "entries_with_email email rid db = []"
  using assms by (auto simp add: entries_with_email_def filter_empty_conv)

lemma eligible_participants_iff:
  "w \<in> set (eligible_participants rid db)
   \<longleftrightarrow> w \<in> set (participants db) \<and> participant_raffleId w = rid \<and> \<not> isWinner w"
  by (auto simp: eligible_participants_def)

lemma update_by_id_unique:
  assumes "distinct (map participant_id ps)" "w \<in> set ps"
  shows "map (\<lambda>p. if participant_id p = participant_id w then g p else p) ps
         = map (\<lambda>p. if p = w then g w else p) ps"
proof (rule map_cong [OF refl])
  fix p assume p: "p \<in> set ps"
  have "participant_id p = participant_id w \<longleftrightarrow> p = w"
    using assms p by (meson distinct_map inj_onD)
  then show "(if participant_id p = participant_id w then g p else p) = (if p = w then g w else p)"
    by auto
qed

lemma participant_id_mark_winner [simp]: "participant_id (mark_winner now p) = participant_id p"
  by (simp add: mark_winner_def)

lemma update_winner_Accepted:
  assumes "distinct (map participant_id (participants db))" "w \<in> set (participants db)"
  shows "update_winner Accepted now (participant_id w) db
         = (Some (mark_winner now w),
            db\<lparr>participants := map (\<lambda>p. if p = w then mark_winner now w else p) (participants db)\<rparr>)"
proof -
  let ?rows = "map (\<lambda>p. if participant_id p = participant_id w then mark_winner now p else p)
                   (participants db)"
  have ids: "map participant_id ?rows = map participant_id (participants db)"
    by (simp add: comp_def if_distrib cong: if_cong)
  have d: "distinct (map participant_id ?rows)" unfolding ids by (rule assms(1))
  have m: "mark_winner now w \<in> set ?rows" using assms(2) by force
  have "filter (\<lambda>p. participant_id p = participant_id (mark_winner now w)) ?rows = [mark_winner now w]"
    by (rule filter_key_unique [OF d m])
  then have s: "single Accepted (filter (\<lambda>p. participant_id p = participant_id w) ?rows)
                = Some (mark_winner now w)"
    by (simp add: single_def)
  have e: "?rows = map (\<lambda>p. if p = w then mark_winner now w else p) (participants db)"
    by (rule update_by_id_unique [OF assms])
  have "update_winner Accepted now (participant_id w) db
        = (single Accepted (filter (\<lambda>p. participant_id p = participant_id w) ?rows),
           db\<lparr>participants := ?rows\<rparr>)"
    by (simp add: update_winner_def Let_def)
  also have "\<dots> = (Some (mark_winner now w), db\<lparr>participants := ?rows\<rparr>)"
    by (simp only: s)
  finally show ?thesis by (simp only: e)
qed

subsection \<open>Registration\<close>

text \<open>The decision chain of \<^const>\<open>addParticipant\<close>, one step at a time.\<close>

lemma addParticipant_not_found:
  assumes "(\<exists>err. raffleLookup answers = Rejected err)
           \<or> \<not> (\<exists>r\<in>set (raffles db). raffle_id r = pd_raffleId pd)"
  shows "addParticipant answers newId pd db = (failure RaffleNotFound, db)"
  using raffle_lookup_missing [OF assms] by (simp add: addParticipant_def)

lemma addParticipant_duplicate:
  assumes "distinct (map raffle_id (raffles db))" "r \<in> set (raffles db)"
    and "raffle_id r = pd_raffleId pd" and "raffleLookup answers = Accepted"
    and "emailLookup answers = Accepted"
    and "length (entries_with_email (toLowerCase (pd_email pd)) (pd_raffleId pd) db) = 1"
  shows "addParticipant answers newId pd db = (failure EmailAlreadyRegistered, db)"
proof -
  note fr = raffle_lookup_found [OF assms(1,2,3)]
  from maybeSingle_one [OF assms(6)] obtain row where
    "maybeSingle Accepted (entries_with_email (toLowerCase (pd_email pd)) (pd_raffleId pd) db)
       = Some row" by blast
  then show ?thesis using fr assms(4,5) by (simp add: addParticipant_def)
qed

lemma addParticipant_new:
  assumes "distinct (map raffle_id (raffles db))" "r \<in> set (raffles db)"
    and "raffle_id r = pd_raffleId pd" and "raffleLookup answers = Accepted"
    and "entries_with_email (toLowerCase (pd_email pd)) (pd_raffleId pd) db = []"
  shows "addParticipant answers newId pd db
         = (if limit_reached (count_rows (winnerCounting answers) (winners (pd_raffleId pd) db))
                 (raffle_quantity r)
            then (failure (WinnerLimitReached (raffle_name r)), db)
            else (case insert_participant (participantInsert answers)
                         \<lparr>participant_id = newId, participant_name = pd_name pd,
                          participant_email = pd_email pd, participant_phone = pd_phone pd,
                          participant_raffleId = pd_raffleId pd,
                          isWinner = False, drawnAt = None\<rparr> db of
                    (Some err, db') \<Rightarrow> (failure (RegistrationError err), db')
                  | (None, db') \<Rightarrow> (succeeded Registered, db')))"
  using raffle_lookup_found [OF assms(1,2,3)] assms(4,5)
  by (simp add: addParticipant_def Let_def)

lemma limit_reached_iff:
  "limit_reached (count_rows answer rows) quantity
   \<longleftrightarrow> answer = Accepted \<and> (\<forall>q. quantity = Some q \<longrightarrow> q \<le> int (length rows))"
  by (cases answer; cases quantity) (simp_all add: limit_reached_def count_rows_def)

lemma register_twice:
  assumes rs: "distinct (map raffle_id (raffles db))" and r: "r \<in> set (raffles db)"
    and rid: "raffle_id r = pd_raffleId pd" and q: "raffle_quantity r = Some 2"
    and empty: "\<forall>p\<in>set (participants db). participant_raffleId p \<noteq> pd_raffleId pd"
    and lower: "toLowerCase (pd_email pd) = pd_email pd"
    and fresh: "newId \<notin> set (map participant_id (participants db))"
    and first: "raffleLookup answers = Accepted" "participantInsert answers = Accepted"
    and second: "raffleLookup answers' = Accepted" "emailLookup answers' = Accepted"
  defines "row \<equiv> \<lparr>participant_id = newId, participant_name = pd_name pd,
                    participant_email = pd_email pd, participant_phone = pd_phone pd,
                    participant_raffleId = pd_raffleId pd, isWinner = False, drawnAt = None\<rparr>"
  shows "addParticipant answers newId pd db
           = (succeeded Registered, db\<lparr>participants := participants db @ [row]\<rparr>)"
    and "addParticipant answers' newId' pd (db\<lparr>participants := participants db @ [row]\<rparr>)
           = (failure EmailAlreadyRegistered, db\<lparr>participants := participants db @ [row]\<rparr>)"
proof -
  let ?db1 = "db\<lparr>participants := participants db @ [row]\<rparr>"
  have none: "entries_with_email (toLowerCase (pd_email pd)) (pd_raffleId pd) db = []"
    using empty by (auto simp: entries_with_email_def filter_empty_conv)
  have w: "winners (pd_raffleId pd) db = []"
    using empty by (auto simp: winners_def filter_empty_conv)
  have nl: "\<not> limit_reached (count_rows (winnerCounting answers) (winners (pd_raffleId pd) db))
                (raffle_quantity r)"
    unfolding limit_reached_iff w q by simp
  show "addParticipant answers newId pd db = (succeeded Registered, ?db1)"
    unfolding addParticipant_new [OF rs r rid first(1) none]
    using nl fresh first(2) by (simp add: insert_participant_def row_def)
  have rs1: "distinct (map raffle_id (raffles ?db1))" using rs by simp
  have r1: "r \<in> set (raffles ?db1)" using r by simp
  have "entries_with_email (toLowerCase (pd_email pd)) (pd_raffleId pd) ?db1 = [row]"
    using none lower by (simp add: entries_with_email_def row_def)
  then have one: "length (entries_with_email (toLowerCase (pd_email pd)) (pd_raffleId pd) ?db1) = 1"
    by simp
  show "addParticipant answers' newId' pd ?db1 = (failure EmailAlreadyRegistered, ?db1)"
    by (rule addParticipant_duplicate [OF rs1 r1 rid second one])
qed

text \<open>
  C1, as stated, fails. The store can reject the insert: the raffle exists, the e-mail
  is new and the ceiling is not reached, yet the call fails and inserts nothing. The
  e-mail is lower-cased for the lookup but stored as it was given, so a second
  registration with the same mixed-case e-mail finds no entry and succeeds. When the
  lookup of the e-mail fails, an e-mail that is registered is registered again. And when
  the count of the winners fails, the ceiling is not checked: with quantity 1 and one
  winner a new registration succeeds.
\<close>

theorem addParticipant_counterexample:
  "addParticipant (all_served\<lparr>participantInsert := Rejected ''timeout''\<rparr>) ''p1''
       (registration ''Ana'' ''ana@example.com'') (store_of raffle_two [])
     = (failure (RegistrationError ''timeout''), store_of raffle_two []) \<and>
   addParticipant all_served ''p2'' (registration ''Ana'' ''Ana@Example.com'')
       (snd (addParticipant all_served ''p1'' (registration ''Ana'' ''Ana@Example.com'')
               (store_of raffle_two [])))
     = (succeeded Registered,
        store_of raffle_two [entry ''p1'' ''Ana'' ''Ana@Example.com'' False None,
                             entry ''p2'' ''Ana'' ''Ana@Example.com'' False None]) \<and>
   addParticipant (all_served\<lparr>emailLookup := Rejected ''timeout''\<rparr>) ''p2''
       (registration ''Ana'' ''ana@example.com'')
       (store_of raffle_two [entry ''p1'' ''Ana'' ''ana@example.com'' False None])
     = (succeeded Registered,
        store_of raffle_two [entry ''p1'' ''Ana'' ''ana@example.com'' False None,
                             entry ''p2'' ''Ana'' ''ana@example.com'' False None]) \<and>
   addParticipant (all_served\<lparr>winnerCounting := Rejected ''timeout''\<rparr>) ''p2''
       (registration ''Bob'' ''bob@example.com'')
       (store_of raffle_one [entry ''p1'' ''Ana'' ''ana@example.com'' True (Some ''10:00'')])
     = (succeeded Registered,
        store_of raffle_one [entry ''p1'' ''Ana'' ''ana@example.com'' True (Some ''10:00''),
                             entry ''p2'' ''Bob'' ''bob@example.com'' False None])"
  by code_simp

text \<open>
  C1, amended. For an e-mail of ASCII characters, on a store whose raffle ids are
  pairwise different (the primary key): \<^const>\<open>addParticipant\<close> fails with not-found when
  the lookup of the raffle fails or no raffle has the id. Otherwise, the lookup of the
  e-mail being answered: it fails with the duplicate-e-mail conflict when exactly one
  entry of that raffle has the lower-cased e-mail; and when no entry has it, it fails
  with the ceiling message if the count of the winners is answered and has reached the
  quantity (a quantity that is \<^verbatim>\<open>null\<close> counting as 0), and otherwise (the count is
  not answered, or is below the quantity) it inserts: when the store rejects the insert
  it fails with the store's error and nothing is inserted, and when the store accepts
  the row under a new id the row is appended, with the e-mail as given and
  \<^verbatim>\<open>isWinner: false\<close>, and the call succeeds. In particular, for a raffle with quantity
  2 and no participants, registering an e-mail that is already in lower case succeeds
  (the raffle lookup and the insert being served), and registering it again fails with
  the conflict (the two lookups being answered) and changes nothing.
\<close>

theorem addParticipant_spec:
  assumes "ascii (pd_email pd)" and "distinct (map raffle_id (raffles db))"
  shows
   "((\<exists>err. raffleLookup answers = Rejected err)
        \<or> \<not> (\<exists>r\<in>set (raffles db). raffle_id r = pd_raffleId pd)
       \<longrightarrow> addParticipant answers newId pd db = (failure RaffleNotFound, db)) \<and>
    (\<forall>r\<in>set (raffles db).
       raffle_id r = pd_raffleId pd \<and> raffleLookup answers = Accepted
         \<and> emailLookup answers = Accepted \<longrightarrow>
       (length (entries_with_email (toLowerCase (pd_email pd)) (pd_raffleId pd) db) = 1
          \<longrightarrow> addParticipant answers newId pd db = (failure EmailAlreadyRegistered, db)) \<and>
       (entries_with_email (toLowerCase (pd_email pd)) (pd_raffleId pd) db = [] \<longrightarrow>
          (winnerCounting answers = Accepted
             \<and> (\<forall>q. raffle_quantity r = Some q \<longrightarrow> q \<le> int (count_winners (pd_raffleId pd) db))
             \<longrightarrow> addParticipant answers newId pd db
                   = (failure (WinnerLimitReached (raffle_name r)), db)) \<and>
          ((\<exists>err. winnerCounting answers = Rejected err)
             \<or> (\<exists>q. raffle_quantity r = Some q \<and> int (count_winners (pd_raffleId pd) db) < q) \<longrightarrow>
             (\<forall>err. participantInsert answers = Rejected err
                \<longrightarrow> addParticipant answers newId pd db = (failure (RegistrationError err), db)) \<and>
             (participantInsert answers = Accepted
                \<and> newId \<notin> set (map participant_id (participants db))
                \<longrightarrow> addParticipant answers newId pd db
                      = (succeeded Registered,
                         db\<lparr>participants := participants db @
                            [\<lparr>participant_id = newId, participant_name = pd_name pd,
                              participant_email = pd_email pd, participant_phone = pd_phone pd,
                              participant_raffleId = pd_raffleId pd,
                              isWinner = False, drawnAt = None\<rparr>]\<rparr>))))) \<and>
    (\<forall>r\<in>set (raffles db).
       raffle_id r = pd_raffleId pd \<and> raffle_quantity r = Some 2 \<and>
       (\<forall>p\<in>set (participants db). participant_raffleId p \<noteq> pd_raffleId pd) \<and>
       toLowerCase (pd_email pd) = pd_email pd \<and>
       newId \<notin> set (map participant_id (participants db)) \<and>
       raffleLookup answers = Accepted \<and> participantInsert answers = Accepted \<and>
       raffleLookup answers' = Accepted \<and> emailLookup answers' = Accepted \<longrightarrow>
         addParticipant answers newId pd db
           = (succeeded Registered,
              db\<lparr>participants := participants db @
                 [\<lparr>participant_id = newId, participant_name = pd_name pd,
                   participant_email = pd_email pd, participant_phone = pd_phone pd,
                   participant_raffleId = pd_raffleId pd,
                   isWinner = False, drawnAt = None\<rparr>]\<rparr>) \<and>
         addParticipant answers' newId' pd
              (db\<lparr>participants := participants db @
                 [\<lparr>participant_id = newId, participant_name = pd_name pd,
                   participant_email = pd_email pd, participant_phone = pd_phone pd,
                   participant_raffleId = pd_raffleId pd,
                   isWinner = False, drawnAt = None\<rparr>]\<rparr>)
           = (failure EmailAlreadyRegistered,
              db\<lparr>participants := participants db @
                 [\<lparr>participant_id = newId, participant_name = pd_name pd,
                   participant_email = pd_email pd, participant_phone = pd_phone pd,
                   participant_raffleId = pd_raffleId pd,
                   isWinner = False, drawnAt = None\<rparr>]\<rparr>))"
proof -
  let ?rid = "pd_raffleId pd"
  let ?row = "\<lparr>participant_id = newId, participant_name = pd_name pd,
               participant_email = pd_email pd, participant_phone = pd_phone pd,
               participant_raffleId = pd_raffleId pd, isWinner = False, drawnAt = None\<rparr>"
  let ?entries = "entries_with_email (toLowerCase (pd_email pd)) ?rid db"
  note rs = assms(2)
  have a: "(\<exists>err. raffleLookup answers = Rejected err)
        \<or> \<not> (\<exists>r\<in>set (raffles db). raffle_id r = ?rid)
       \<longrightarrow> addParticipant answers newId pd db = (failure RaffleNotFound, db)"
    using addParticipant_not_found by blast
  have b: "(length ?entries = 1
          \<longrightarrow> addParticipant answers newId pd db = (failure EmailAlreadyRegistered, db)) \<and>
       (?entries = [] \<longrightarrow>
          (winnerCounting answers = Accepted
             \<and> (\<forall>q. raffle_quantity r = Some q \<longrightarrow> q \<le> int (count_winners ?rid db))
             \<longrightarrow> addParticipant answers newId pd db
                   = (failure (WinnerLimitReached (raffle_name r)), db)) \<and>
          ((\<exists>err. winnerCounting answers = Rejected err)
             \<or> (\<exists>q. raffle_quantity r = Some q \<and> int (count_winners ?rid db) < q) \<longrightarrow>
             (\<forall>err. participantInsert answers = Rejected err
                \<longrightarrow> addParticipant answers newId pd db = (failure (RegistrationError err), db)) \<and>
             (participantInsert answers = Accepted
                \<and> newId \<notin> set (map participant_id (participants db))
                \<longrightarrow> addParticipant answers newId pd db
                      = (succeeded Registered, db\<lparr>participants := participants db @ [?row]\<rparr>))))"
    if r: "r \<in> set (raffles db)"
      and c: "raffle_id r = ?rid \<and> raffleLookup answers = Accepted \<and> emailLookup answers = Accepted"
    for r
  proof (intro conjI impI allI)
    assume "length ?entries = 1"
    then show "addParticipant answers newId pd db = (failure EmailAlreadyRegistered, db)"
      using addParticipant_duplicate [OF rs r] c by blast
  next
    assume e: "?entries = []"
    assume "winnerCounting answers = Accepted
             \<and> (\<forall>q. raffle_quantity r = Some q \<longrightarrow> q \<le> int (count_winners ?rid db))"
    then have "limit_reached (count_rows (winnerCounting answers) (winners ?rid db))
                 (raffle_quantity r)"
      unfolding limit_reached_iff by (simp add: count_winners_def)
    then show "addParticipant answers newId pd db
                 = (failure (WinnerLimitReached (raffle_name r)), db)"
      using addParticipant_new [OF rs r _ _ e] c by simp
  next
    fix err
    assume e: "?entries = []"
    assume "(\<exists>err. winnerCounting answers = Rejected err)
             \<or> (\<exists>q. raffle_quantity r = Some q \<and> int (count_winners ?rid db) < q)"
    then have nl: "\<not> limit_reached (count_rows (winnerCounting answers) (winners ?rid db))
                 (raffle_quantity r)"
      unfolding limit_reached_iff by (auto simp add: count_winners_def)
    assume "participantInsert answers = Rejected err"
    then show "addParticipant answers newId pd db = (failure (RegistrationError err), db)"
      using addParticipant_new [OF rs r _ _ e] c nl by (simp add: insert_participant_def)
  next
    assume e: "?entries = []"
    assume "(\<exists>err. winnerCounting answers = Rejected err)
             \<or> (\<exists>q. raffle_quantity r = Some q \<and> int (count_winners ?rid db) < q)"
    then have nl: "\<not> limit_reached (count_rows (winnerCounting answers) (winners ?rid db))
                 (raffle_quantity r)"
      unfolding limit_reached_iff by (auto simp add: count_winners_def)
    assume "participantInsert answers = Accepted
                \<and> newId \<notin> set (map participant_id (participants db))"
    then show "addParticipant answers newId pd db
                 = (succeeded Registered, db\<lparr>participants := participants db @ [?row]\<rparr>)"
      using addParticipant_new [OF rs r _ _ e] c nl by (simp add: insert_participant_def)
  qed
  have c: "addParticipant answers newId pd db
           = (succeeded Registered, db\<lparr>participants := participants db @ [?row]\<rparr>) \<and>
         addParticipant answers' newId' pd (db\<lparr>participants := participants db @ [?row]\<rparr>)
           = (failure EmailAlreadyRegistered, db\<lparr>participants := participants db @ [?row]\<rparr>)"
    if r: "r \<in> set (raffles db)"
      and h: "raffle_id r = ?rid \<and> raffle_quantity r = Some 2 \<and>
       (\<forall>p\<in>set (participants db). participant_raffleId p \<noteq> ?rid) \<and>
       toLowerCase (pd_email pd) = pd_email pd \<and>
       newId \<notin> set (map participant_id (participants db)) \<and>
       raffleLookup answers = Accepted \<and> participantInsert answers = Accepted \<and>
       raffleLookup answers' = Accepted \<and> emailLookup answers' = Accepted"
    for r
  proof -
    from h have h1: "raffle_id r = ?rid" and h2: "raffle_quantity r = Some 2"
      and h3: "\<forall>p\<in>set (participants db). participant_raffleId p \<noteq> ?rid"
      and h4: "toLowerCase (pd_email pd) = pd_email pd"
      and h5: "newId \<notin> set (map participant_id (participants db))"
      and h6: "raffleLookup answers = Accepted" and h7: "participantInsert answers = Accepted"
      and h8: "raffleLookup answers' = Accepted" and h9: "emailLookup answers' = Accepted"
      by simp_all
    note t = register_twice [OF rs r h1 h2 h3 h4 h5 h6 h7 h8 h9]
    show ?thesis by (intro conjI) (rule t(1), rule t(2))
  qed
  show ?thesis
  proof (intro conjI)
    show "(\<exists>err. raffleLookup answers = Rejected err)
        \<or> \<not> (\<exists>r\<in>set (raffles db). raffle_id r = ?rid)
       \<longrightarrow> addParticipant answers newId pd db = (failure RaffleNotFound, db)"
      by (rule a)
  next
    show "\<forall>r\<in>set (raffles db).
       raffle_id r = ?rid \<and> raffleLookup answers = Accepted
         \<and> emailLookup answers = Accepted \<longrightarrow>
       (length ?entries = 1
          \<longrightarrow> addParticipant answers newId pd db = (failure EmailAlreadyRegistered, db)) \<and>
       (?entries = [] \<longrightarrow>
          (winnerCounting answers = Accepted
             \<and> (\<forall>q. raffle_quantity r = Some q \<longrightarrow> q \<le> int (count_winners ?rid db))
             \<longrightarrow> addParticipant answers newId pd db
                   = (failure (WinnerLimitReached (raffle_name r)), db)) \<and>
          ((\<exists>err. winnerCounting answers = Rejected err)
             \<or> (\<exists>q. raffle_quantity r = Some q \<and> int (count_winners ?rid db) < q) \<longrightarrow>
             (\<forall>err. participantInsert answers = Rejected err
                \<longrightarrow> addParticipant answers newId pd db = (failure (RegistrationError err), db)) \<and>
             (participantInsert answers = Accepted
                \<and> newId \<notin> set (map participant_id (participants db))
                \<longrightarrow> addParticipant answers newId pd db
                      = (succeeded Registered, db\<lparr>participants := participants db @ [?row]\<rparr>))))"
      by (intro ballI impI) (rule b)
  next
    show "\<forall>r\<in>set (raffles db).
       raffle_id r = ?rid \<and> raffle_quantity r = Some 2 \<and>
       (\<forall>p\<in>set (participants db). participant_raffleId p \<noteq> ?rid) \<and>
       toLowerCase (pd_email pd) = pd_email pd \<and>
       newId \<notin> set (map participant_id (participants db)) \<and>
       raffleLookup answers = Accepted \<and> participantInsert answers = Accepted \<and>
       raffleLookup answers' = Accepted \<and> emailLookup answers' = Accepted \<longrightarrow>
         addParticipant answers newId pd db
           = (succeeded Registered, db\<lparr>participants := participants db @ [?row]\<rparr>) \<and>
         addParticipant answers' newId' pd (db\<lparr>participants := participants db @ [?row]\<rparr>)
           = (failure EmailAlreadyRegistered, db\<lparr>participants := participants db @ [?row]\<rparr>)"
      by (intro ballI impI) (rule c)
  qed
qed

theorem addParticipant_spec_witness:
  "ascii ''ana@example.com'' \<and>
   addParticipant all_served ''p1'' (registration ''Ana'' ''ana@example.com'') (store_of raffle_two [])
     = (succeeded Registered, store_of raffle_two [entry ''p1'' ''Ana'' ''ana@example.com'' False None]) \<and>
   addParticipant all_served ''p2'' (registration ''Ana'' ''ana@example.com'')
       (store_of raffle_two [entry ''p1'' ''Ana'' ''ana@example.com'' False None])
     = (failure EmailAlreadyRegistered,
        store_of raffle_two [entry ''p1'' ''Ana'' ''ana@example.com'' False None])"
proof -
  let ?db = "store_of raffle_two []"
  let ?pd = "registration ''Ana'' ''ana@example.com''"
  have h0: "ascii (pd_email ?pd)" by code_simp
  have h1: "distinct (map raffle_id (raffles ?db))" by (simp add: example_defs)
  have h3: "raffle_two \<in> set (raffles ?db)" by (simp add: example_defs)
  have h4: "raffle_id raffle_two = pd_raffleId ?pd \<and> raffle_quantity raffle_two = Some 2 \<and>
       (\<forall>p\<in>set (participants ?db). participant_raffleId p \<noteq> pd_raffleId ?pd) \<and>
       toLowerCase (pd_email ?pd) = pd_email ?pd \<and>
       ''p1'' \<notin> set (map participant_id (participants ?db)) \<and>
       raffleLookup all_served = Accepted \<and> participantInsert all_served = Accepted \<and>
       raffleLookup all_served = Accepted \<and> emailLookup all_served = Accepted"
    by code_simp
  have a: "ascii ''ana@example.com''" by code_simp
  note t = addParticipant_spec [OF h0 h1, where newId = "''p1''" and newId' = "''p2''"
      and answers = all_served and answers' = all_served,
      THEN conjunct2, THEN conjunct2, THEN bspec, OF h3, THEN mp, OF h4]
  have b: "addParticipant all_served ''p1'' ?pd ?db
     = (succeeded Registered, store_of raffle_two [entry ''p1'' ''Ana'' ''ana@example.com'' False None])"
    using t [THEN conjunct1] by (simp add: example_defs)
  have c: "addParticipant all_served ''p2'' ?pd
       (store_of raffle_two [entry ''p1'' ''Ana'' ''ana@example.com'' False None])
     = (failure EmailAlreadyRegistered,
        store_of raffle_two [entry ''p1'' ''Ana'' ''ana@example.com'' False None])"
    using t [THEN conjunct2] by (simp add: example_defs)
  show ?thesis by (intro conjI) (rule a, rule b, rule c)
qed

subsection \<open>Draw\<close>

text \<open>
  C3, as stated, fails: with a raffle selected that has a participant who has not won,
  \<^const>\<open>drawWinner\<close> returns no winner when the query for the eligible participants
  fails. Nobody is selected and no update is attempted, though the store would accept
  it.
\<close>

theorem drawWinner_counterexample:
  "eligible_participants (raffle_id raffle_two)
      (store_of raffle_two [entry ''p1'' ''Ana'' ''ana@example.com'' False None])
     = [entry ''p1'' ''Ana'' ''ana@example.com'' False None] \<and>
   drawWinner exact_times (1/2) (Rejected ''timeout'') Accepted ''2025-09-12T10:00:00Z''
      (Some raffle_two) (store_of raffle_two [entry ''p1'' ''Ana'' ''ana@example.com'' False None])
     = Inr (None, store_of raffle_two [entry ''p1'' ''Ana'' ''ana@example.com'' False None])"
  by (simp add: example_defs drawWinner_def eligible_participants_def select_rows_def)

text \<open>
  C3, amended. \<^const>\<open>drawWinner\<close> returns no winner and leaves the store alone when no
  raffle is selected, when the query for the eligible participants of the selected
  raffle fails, or when the selected raffle has no participant with \<^verbatim>\<open>isWinner\<close> false.
  Otherwise it picks a member \<open>w\<close> of that fetched set; when the store accepts the
  update, exactly the row of \<open>w\<close> becomes \<open>w\<close> with \<^verbatim>\<open>isWinner\<close> true and the timestamp,
  and that row is returned; when the update fails, nothing is returned and nothing
  changes. A returned participant belongs to the selected raffle and was not a winner
  when fetched. Here \<open>random\<close> is a value of \<^verbatim>\<open>Math.random()\<close>, multiplied by the
  machine, the participants fit into an array, and their ids are a primary key.
\<close>

theorem drawWinner_spec:
  assumes "machine_random multiply random" and "length (participants db) < 2 ^ 32"
    and "distinct (map participant_id (participants db))"
  shows
   "(selectedRaffle = None
       \<longrightarrow> drawWinner multiply random fetched answer now selectedRaffle db = Inr (None, db)) \<and>
    (\<forall>raffle. selectedRaffle = Some raffle \<longrightarrow>
       ((\<exists>err. fetched = Rejected err)
          \<longrightarrow> drawWinner multiply random fetched answer now selectedRaffle db = Inr (None, db)) \<and>
       (eligible_participants (raffle_id raffle) db = []
          \<longrightarrow> drawWinner multiply random fetched answer now selectedRaffle db = Inr (None, db)) \<and>
       (fetched = Accepted \<and> eligible_participants (raffle_id raffle) db \<noteq> [] \<longrightarrow>
          (\<exists>w\<in>set (eligible_participants (raffle_id raffle) db).
             (answer = Accepted \<longrightarrow>
                drawWinner multiply random fetched answer now selectedRaffle db
                  = Inr (Some (w\<lparr>isWinner := True, drawnAt := Some now\<rparr>),
                         db\<lparr>participants :=
                              map (\<lambda>p. if p = w then w\<lparr>isWinner := True, drawnAt := Some now\<rparr> else p)
                                  (participants db)\<rparr>)) \<and>
             (\<forall>err. answer = Rejected err
                \<longrightarrow> drawWinner multiply random fetched answer now selectedRaffle db
                      = Inr (None, db))))) \<and>
    (\<forall>p db'. drawWinner multiply random fetched answer now selectedRaffle db = Inr (Some p, db') \<longrightarrow>
       (\<exists>raffle. selectedRaffle = Some raffle \<and> participant_raffleId p = raffle_id raffle \<and>
          (\<exists>w\<in>set (participants db). participant_raffleId w = raffle_id raffle \<and> isWinner w = False
              \<and> p = w\<lparr>isWinner := True, drawnAt := Some now\<rparr>)))"
proof -
  have none: "selectedRaffle = None
       \<longrightarrow> drawWinner multiply random fetched answer now selectedRaffle db = Inr (None, db)"
    by (simp add: drawWinner_def)
  have failed: "(\<exists>err. fetched = Rejected err)
          \<longrightarrow> drawWinner multiply random fetched answer now (Some raffle) db = Inr (None, db)"
    for raffle
    by (auto simp add: drawWinner_def select_rows_def)
  have nobody: "eligible_participants (raffle_id raffle) db = []
          \<longrightarrow> drawWinner multiply random fetched answer now (Some raffle) db = Inr (None, db)"
    for raffle
    by (cases fetched) (simp_all add: drawWinner_def select_rows_def)
  have pick: "fetched = Accepted \<and> eligible_participants (raffle_id raffle) db \<noteq> [] \<longrightarrow>
          (\<exists>w\<in>set (eligible_participants (raffle_id raffle) db).
             (answer = Accepted \<longrightarrow>
                drawWinner multiply random fetched answer now (Some raffle) db
                  = Inr (Some (w\<lparr>isWinner := True, drawnAt := Some now\<rparr>),
                         db\<lparr>participants :=
                              map (\<lambda>p. if p = w then w\<lparr>isWinner := True, drawnAt := Some now\<rparr> else p)
                                  (participants db)\<rparr>)) \<and>
             (\<forall>err. answer = Rejected err
                \<longrightarrow> drawWinner multiply random fetched answer now (Some raffle) db
                      = Inr (None, db)))" for raffle
  proof
    let ?el = "eligible_participants (raffle_id raffle) db"
    assume fe: "fetched = Accepted \<and> ?el \<noteq> []"
    then have f: "fetched = Accepted" and ne: "?el \<noteq> []" by simp_all
    have "length ?el < 2 ^ 32"
      using eligible_participants_length [of "raffle_id raffle" db] assms(2) by linarith
    from at_index_random [OF assms(1) ne this] obtain w where
      w: "w \<in> set ?el" "at_index ?el (random_index multiply random (length ?el)) = Some w" by blast
    have win: "w \<in> set (participants db)" using w(1) by (simp add: eligible_participants_iff)
    have dw: "drawWinner multiply random fetched answer now (Some raffle) db
              = Inr (update_winner answer now (participant_id w) db)"
      using f ne w(2) by (simp add: drawWinner_def select_rows_def Let_def)
    have acc: "answer = Accepted \<longrightarrow>
                drawWinner multiply random fetched answer now (Some raffle) db
                  = Inr (Some (w\<lparr>isWinner := True, drawnAt := Some now\<rparr>),
                         db\<lparr>participants :=
                              map (\<lambda>p. if p = w then w\<lparr>isWinner := True, drawnAt := Some now\<rparr> else p)
                                  (participants db)\<rparr>)"
    proof
      assume a: "answer = Accepted"
      have "drawWinner multiply random fetched answer now (Some raffle) db
            = Inr (update_winner Accepted now (participant_id w) db)"
        using dw a by simp
      also have "\<dots> = Inr (Some (mark_winner now w),
                     db\<lparr>participants :=
                          map (\<lambda>p. if p = w then mark_winner now w else p) (participants db)\<rparr>)"
        by (simp only: update_winner_Accepted [OF assms(3) win])
      finally show "drawWinner multiply random fetched answer now (Some raffle) db
                  = Inr (Some (w\<lparr>isWinner := True, drawnAt := Some now\<rparr>),
                         db\<lparr>participants :=
                              map (\<lambda>p. if p = w then w\<lparr>isWinner := True, drawnAt := Some now\<rparr> else p)
                                  (participants db)\<rparr>)"
        unfolding mark_winner_def .
    qed
    have rej: "\<forall>err. answer = Rejected err
                \<longrightarrow> drawWinner multiply random fetched answer now (Some raffle) db = Inr (None, db)"
      using dw by (auto simp add: update_winner_def)
    show "\<exists>w\<in>set ?el.
             (answer = Accepted \<longrightarrow>
                drawWinner multiply random fetched answer now (Some raffle) db
                  = Inr (Some (w\<lparr>isWinner := True, drawnAt := Some now\<rparr>),
                         db\<lparr>participants :=
                              map (\<lambda>p. if p = w then w\<lparr>isWinner := True, drawnAt := Some now\<rparr> else p)
                                  (participants db)\<rparr>)) \<and>
             (\<forall>err. answer = Rejected err
                \<longrightarrow> drawWinner multiply random fetched answer now (Some raffle) db = Inr (None, db))"
      using w(1) acc rej by blast
  qed
  have ret: "\<exists>raffle. selectedRaffle = Some raffle \<and> participant_raffleId p = raffle_id raffle \<and>
          (\<exists>w\<in>set (participants db). participant_raffleId w = raffle_id raffle \<and> isWinner w = False
              \<and> p = w\<lparr>isWinner := True, drawnAt := Some now\<rparr>)"
    if r: "drawWinner multiply random fetched answer now selectedRaffle db = Inr (Some p, db')" for p db'
  proof (cases selectedRaffle)
    case None
    with none r show ?thesis by simp
  next
    case (Some raffle)
    let ?el = "eligible_participants (raffle_id raffle) db"
    have f: "fetched = Accepted" using failed [of raffle] r Some by (cases fetched) auto
    have ne: "?el \<noteq> []" using nobody [of raffle] r Some by auto
    with pick [of raffle] f obtain w where w: "w \<in> set ?el"
      and acc: "answer = Accepted \<longrightarrow>
                drawWinner multiply random fetched answer now (Some raffle) db
                  = Inr (Some (w\<lparr>isWinner := True, drawnAt := Some now\<rparr>),
                         db\<lparr>participants :=
                              map (\<lambda>p. if p = w then w\<lparr>isWinner := True, drawnAt := Some now\<rparr> else p)
                                  (participants db)\<rparr>)"
      and rej: "\<forall>err. answer = Rejected err
                \<longrightarrow> drawWinner multiply random fetched answer now (Some raffle) db = Inr (None, db)"
      by blast
    have "answer = Accepted" using rej r Some by (cases answer) auto
    with acc r Some have p: "p = w\<lparr>isWinner := True, drawnAt := Some now\<rparr>" by simp
    from w have "w \<in> set (participants db)" "participant_raffleId w = raffle_id raffle" "isWinner w = False"
      by (simp_all add: eligible_participants_iff)
    then show ?thesis using Some p by auto
  qed
  have mid: "\<forall>raffle. selectedRaffle = Some raffle \<longrightarrow>
       ((\<exists>err. fetched = Rejected err)
          \<longrightarrow> drawWinner multiply random fetched answer now selectedRaffle db = Inr (None, db)) \<and>
       (eligible_participants (raffle_id raffle) db = []
          \<longrightarrow> drawWinner multiply random fetched answer now selectedRaffle db = Inr (None, db)) \<and>
       (fetched = Accepted \<and> eligible_participants (raffle_id raffle) db \<noteq> [] \<longrightarrow>
          (\<exists>w\<in>set (eligible_participants (raffle_id raffle) db).
             (answer = Accepted \<longrightarrow>
                drawWinner multiply random fetched answer now selectedRaffle db
                  = Inr (Some (w\<lparr>isWinner := True, drawnAt := Some now\<rparr>),
                         db\<lparr>participants :=
                              map (\<lambda>p. if p = w then w\<lparr>isWinner := True, drawnAt := Some now\<rparr> else p)
                                  (participants db)\<rparr>)) \<and>
             (\<forall>err. answer = Rejected err
                \<longrightarrow> drawWinner multiply random fetched answer now selectedRaffle db
                      = Inr (None, db))))"
  proof (intro allI impI)
    fix raffle assume s: "selectedRaffle = Some raffle"
    show "((\<exists>err. fetched = Rejected err)
          \<longrightarrow> drawWinner multiply random fetched answer now selectedRaffle db = Inr (None, db)) \<and>
       (eligible_participants (raffle_id raffle) db = []
          \<longrightarrow> drawWinner multiply random fetched answer now selectedRaffle db = Inr (None, db)) \<and>
       (fetched = Accepted \<and> eligible_participants (raffle_id raffle) db \<noteq> [] \<longrightarrow>
          (\<exists>w\<in>set (eligible_participants (raffle_id raffle) db).
             (answer = Accepted \<longrightarrow>
                drawWinner multiply random fetched answer now selectedRaffle db
                  = Inr (Some (w\<lparr>isWinner := True, drawnAt := Some now\<rparr>),
                         db\<lparr>participants :=
                              map (\<lambda>p. if p = w then w\<lparr>isWinner := True, drawnAt := Some now\<rparr> else p)
                                  (participants db)\<rparr>)) \<and>
             (\<forall>err. answer = Rejected err
                \<longrightarrow> drawWinner multiply random fetched answer now selectedRaffle db
                      = Inr (None, db))))"
      unfolding s by (intro conjI) (rule failed, rule nobody, rule pick)
  qed
  have last: "\<forall>p db'. drawWinner multiply random fetched answer now selectedRaffle db = Inr (Some p, db') \<longrightarrow>
       (\<exists>raffle. selectedRaffle = Some raffle \<and> participant_raffleId p = raffle_id raffle \<and>
          (\<exists>w\<in>set (participants db). participant_raffleId w = raffle_id raffle \<and> isWinner w = False
              \<and> p = w\<lparr>isWinner := True, drawnAt := Some now\<rparr>))"
    using ret by (intro allI impI)
  show ?thesis by (intro conjI) (rule none, rule mid, rule last)
qed

theorem drawWinner_spec_witness:
  "drawWinner exact_times (1/2) Accepted Accepted ''2025-09-12T10:00:00Z'' (Some raffle_two)
      (store_of raffle_two [entry ''p1'' ''Ana'' ''ana@example.com'' True (Some ''2025-09-11T10:00:00Z''),
                            entry ''p2'' ''Bob'' ''bob@example.com'' False None,
                            entry ''p3'' ''Cid'' ''cid@example.com'' False None])
    = Inr (Some (entry ''p3'' ''Cid'' ''cid@example.com'' True (Some ''2025-09-12T10:00:00Z'')),
           store_of raffle_two [entry ''p1'' ''Ana'' ''ana@example.com'' True (Some ''2025-09-11T10:00:00Z''),
                            entry ''p2'' ''Bob'' ''bob@example.com'' False None,
                            entry ''p3'' ''Cid'' ''cid@example.com'' True (Some ''2025-09-12T10:00:00Z'')]) \<and>
   (\<exists>w\<in>set (eligible_participants ''r1'' (store_of raffle_two
                  [entry ''p1'' ''Ana'' ''ana@example.com'' True (Some ''2025-09-11T10:00:00Z''),
                   entry ''p2'' ''Bob'' ''bob@example.com'' False None,
                   entry ''p3'' ''Cid'' ''cid@example.com'' False None])).
      drawWinner exact_times (1/2) Accepted Accepted ''2025-09-12T10:00:00Z'' (Some raffle_two)
        (store_of raffle_two [entry ''p1'' ''Ana'' ''ana@example.com'' True (Some ''2025-09-11T10:00:00Z''),
                            entry ''p2'' ''Bob'' ''bob@example.com'' False None,
                            entry ''p3'' ''Cid'' ''cid@example.com'' False None])
      = Inr (Some (w\<lparr>isWinner := True, drawnAt := Some ''2025-09-12T10:00:00Z''\<rparr>),
             store_of raffle_two (map (\<lambda>p. if p = w then w\<lparr>isWinner := True, drawnAt := Some ''2025-09-12T10:00:00Z''\<rparr> else p)
                  [entry ''p1'' ''Ana'' ''ana@example.com'' True (Some ''2025-09-11T10:00:00Z''),
                   entry ''p2'' ''Bob'' ''bob@example.com'' False None,
                   entry ''p3'' ''Cid'' ''cid@example.com'' False None]))) \<and>
   drawWinner exact_times (1/2) (Rejected ''timeout'') Accepted ''2025-09-12T10:00:00Z'' (Some raffle_two)
      (store_of raffle_two [entry ''p1'' ''Ana'' ''ana@example.com'' True (Some ''2025-09-11T10:00:00Z''),
                            entry ''p2'' ''Bob'' ''bob@example.com'' False None,
                            entry ''p3'' ''Cid'' ''cid@example.com'' False None])
    = Inr (None,
           store_of raffle_two [entry ''p1'' ''Ana'' ''ana@example.com'' True (Some ''2025-09-11T10:00:00Z''),
                            entry ''p2'' ''Bob'' ''bob@example.com'' False None,
                            entry ''p3'' ''Cid'' ''cid@example.com'' False None])"
proof -
  let ?ps = "[entry ''p1'' ''Ana'' ''ana@example.com'' True (Some ''2025-09-11T10:00:00Z''),
              entry ''p2'' ''Bob'' ''bob@example.com'' False None,
              entry ''p3'' ''Cid'' ''cid@example.com'' False None]"
  let ?db = "store_of raffle_two ?ps"
  have h2: "length (participants ?db) < 2 ^ 32" by (simp add: example_defs)
  have h3: "distinct (map participant_id (participants ?db))" by (simp add: example_defs)
  have ne: "Accepted = Accepted \<and> eligible_participants (raffle_id raffle_two) ?db \<noteq> []"
    by (simp add: example_defs eligible_participants_def)
  have rid: "raffle_id raffle_two = ''r1''" by (simp add: example_defs)
  note t = drawWinner_spec [OF machine_random_exact_half h2 h3,
      where selectedRaffle = "Some raffle_two" and answer = Accepted
      and now = "''2025-09-12T10:00:00Z''" and fetched = Accepted,
      THEN conjunct2, THEN conjunct1, THEN spec, THEN mp, OF refl]
  note u = drawWinner_spec [OF machine_random_exact_half h2 h3,
      where selectedRaffle = "Some raffle_two" and answer = Accepted
      and now = "''2025-09-12T10:00:00Z''" and fetched = "Rejected ''timeout''",
      THEN conjunct2, THEN conjunct1, THEN spec, THEN mp, OF refl]
  from t [THEN conjunct2, THEN conjunct2, THEN mp, OF ne]
  have "\<exists>w\<in>set (eligible_participants (raffle_id raffle_two) ?db).
      drawWinner exact_times (1/2) Accepted Accepted ''2025-09-12T10:00:00Z'' (Some raffle_two) ?db
      = Inr (Some (w\<lparr>isWinner := True, drawnAt := Some ''2025-09-12T10:00:00Z''\<rparr>),
             ?db\<lparr>participants := map (\<lambda>p. if p = w then w\<lparr>isWinner := True, drawnAt := Some ''2025-09-12T10:00:00Z''\<rparr> else p) (participants ?db)\<rparr>)"
    by blast
  then have e: "\<exists>w\<in>set (eligible_participants ''r1'' ?db).
      drawWinner exact_times (1/2) Accepted Accepted ''2025-09-12T10:00:00Z'' (Some raffle_two) ?db
      = Inr (Some (w\<lparr>isWinner := True, drawnAt := Some ''2025-09-12T10:00:00Z''\<rparr>),
             store_of raffle_two (map (\<lambda>p. if p = w then w\<lparr>isWinner := True, drawnAt := Some ''2025-09-12T10:00:00Z''\<rparr> else p) ?ps))"
    unfolding rid by (simp add: store_of_def)
  have v: "drawWinner exact_times (1/2) Accepted Accepted ''2025-09-12T10:00:00Z'' (Some raffle_two) ?db
    = Inr (Some (entry ''p3'' ''Cid'' ''cid@example.com'' True (Some ''2025-09-12T10:00:00Z'')),
           store_of raffle_two [entry ''p1'' ''Ana'' ''ana@example.com'' True (Some ''2025-09-11T10:00:00Z''),
                            entry ''p2'' ''Bob'' ''bob@example.com'' False None,
                            entry ''p3'' ''Cid'' ''cid@example.com'' True (Some ''2025-09-12T10:00:00Z'')])"
    by (simp add: example_defs drawWinner_def eligible_participants_def random_index_def
          exact_times_def at_index_def update_winner_def mark_winner_def single_def
          select_rows_def Let_def)
  have ex: "\<exists>err. Rejected ''timeout'' = Rejected err" by blast
  note f = u [THEN conjunct1, THEN mp, OF ex]
  show ?thesis by (intro conjI) (rule v, rule e, rule f)
qed

subsection \<open>The winner ceiling\<close>

lemma addParticipant_store:
  "snd (addParticipant answers newId pd db) = db \<or>
   (\<exists>row. snd (addParticipant answers newId pd db) = db\<lparr>participants := participants db @ [row]\<rparr>
      \<and> isWinner row = False \<and> participant_id row \<notin> set (map participant_id (participants db))
      \<and> success (fst (addParticipant answers newId pd db)))"
  by (auto simp: addParticipant_def insert_participant_def succeeded_def Let_def
           split: option.splits verdict.splits)

lemma addParticipant_winners:
  "count_winners rid (snd (addParticipant answers newId pd db)) = count_winners rid db"
  using addParticipant_store [of answers newId pd db]
  by (auto simp: count_winners_def winners_def)

lemma addParticipant_closed:
  assumes "winnerCounting answers = Accepted"
    and "\<forall>r\<in>set (raffles db). raffle_id r = pd_raffleId pd
           \<longrightarrow> (\<forall>q. raffle_quantity r = Some q \<longrightarrow> q \<le> int (count_winners (pd_raffleId pd) db))"
  shows "snd (addParticipant answers newId pd db) = db"
    and "success (fst (addParticipant answers newId pd db)) = False"
proof -
  have q: "limit_reached (count_rows (winnerCounting answers) (winners (pd_raffleId pd) db))
             (raffle_quantity r)"
    if "single (raffleLookup answers) (raffles_with_id (pd_raffleId pd) db) = Some r" for r
    unfolding limit_reached_iff
    using raffle_lookup_SomeD [OF that] assms by (simp add: count_winners_def)
  show "snd (addParticipant answers newId pd db) = db"
    using q by (auto simp: addParticipant_def Let_def split: option.splits)
  show "success (fst (addParticipant answers newId pd db)) = False"
    using q by (auto simp: addParticipant_def failure_def Let_def split: option.splits)
qed

lemma drawWinner_store:
  assumes "drawWinner multiply random fetched answer now selectedRaffle db = Inr (res, db')"
  shows "db' = db \<or>
    (\<exists>raffle w. selectedRaffle = Some raffle \<and> w \<in> set (eligible_participants (raffle_id raffle) db)
       \<and> db' = db\<lparr>participants :=
                  map (\<lambda>p. if participant_id p = participant_id w then mark_winner now p else p)
                      (participants db)\<rparr>)"
proof (cases selectedRaffle)
  case None
  then show ?thesis using assms by (simp add: drawWinner_def)
next
  case (Some raffle)
  let ?el = "eligible_participants (raffle_id raffle) db"
  show ?thesis
  proof (cases "fetched = Accepted \<and> ?el \<noteq> []")
    case False
    then show ?thesis using assms Some
      by (cases fetched) (auto simp add: drawWinner_def select_rows_def)
  next
    case True
    from assms Some True obtain w where
      w: "at_index ?el (random_index multiply random (length ?el)) = Some w"
      and u: "update_winner answer now (participant_id w) db = (res, db')"
      by (auto simp: drawWinner_def select_rows_def Let_def split: option.splits)
    have "w \<in> set ?el"
      using w by (auto simp: at_index_def split: if_splits)
    then show ?thesis
      using u Some by (cases answer) (auto simp: update_winner_def Let_def)
  qed
qed

lemma count_update_le:
  "distinct ps \<Longrightarrow>
   length (filter P (map (\<lambda>p. if p = w then w' else p) ps))
     \<le> length (filter P ps) + (if P w' then 1 else 0)"
proof (induction ps)
  case Nil
  then show ?case by simp
next
  case (Cons a ps)
  show ?case
  proof (cases "a = w")
    case True
    then have "\<forall>p\<in>set ps. p \<noteq> w" using Cons.prems by auto
    then have "map (\<lambda>p. if p = w then w' else p) ps = ps" by (simp add: map_idI)
    then show ?thesis using True by simp
  next
    case False
    have "length (filter P (map (\<lambda>p. if p = w then w' else p) ps))
          \<le> length (filter P ps) + (if P w' then 1 else 0)"
      using Cons by simp
    then show ?thesis using False by (auto split: if_splits)
  qed
qed

lemma count_winners_mark:
  assumes "distinct (map participant_id (participants db))" "w \<in> set (participants db)"
  shows "count_winners rid (db\<lparr>participants :=
            map (\<lambda>p. if participant_id p = participant_id w then mark_winner now p else p)
                (participants db)\<rparr>)
         \<le> count_winners rid db + (if participant_raffleId w = rid then 1 else 0)"
proof -
  have d: "distinct (participants db)" using assms(1) by (simp add: distinct_map)
  have "length (filter (\<lambda>p. participant_raffleId p = rid \<and> isWinner p = True)
          (map (\<lambda>p. if p = w then mark_winner now w else p) (participants db)))
        \<le> length (filter (\<lambda>p. participant_raffleId p = rid \<and> isWinner p = True) (participants db))
           + (if participant_raffleId (mark_winner now w) = rid \<and> isWinner (mark_winner now w) = True
              then 1 else 0)"
    by (rule count_update_le [OF d])
  then show ?thesis
    unfolding count_winners_def winners_def update_by_id_unique [OF assms]
    by (simp add: mark_winner_def)
qed

lemma ids_after_mark:
  "map (participant_id \<circ> (\<lambda>p. if participant_id p = wid then mark_winner now p else p)) ps
   = map participant_id ps"
  by (induction ps) simp_all

lemma apply_operation_step:
  assumes "distinct (map participant_id (participants db))"
  shows "distinct (map participant_id (participants (apply_operation multiply x db)))"
    and "raffles (apply_operation multiply x db) = raffles db"
    and "count_winners rid (apply_operation multiply x db)
         \<le> count_winners rid db + (if draws_on rid x then 1 else 0)"
proof -
  have "distinct (map participant_id (participants (apply_operation multiply x db)))
        \<and> raffles (apply_operation multiply x db) = raffles db
        \<and> count_winners rid (apply_operation multiply x db)
         \<le> count_winners rid db + (if draws_on rid x then 1 else 0)"
  proof (cases x)
    case (AddParticipant answers newId pd)
    from addParticipant_store [of answers newId pd db] show ?thesis
    proof
      assume "snd (addParticipant answers newId pd db) = db"
      then show ?thesis using AddParticipant assms by simp
    next
      assume "\<exists>row. snd (addParticipant answers newId pd db) = db\<lparr>participants := participants db @ [row]\<rparr>
        \<and> isWinner row = False \<and> participant_id row \<notin> set (map participant_id (participants db))
        \<and> success (fst (addParticipant answers newId pd db))"
      then show ?thesis using AddParticipant assms by (auto simp: count_winners_def winners_def)
    qed
  next
    case (DrawWinner random fetched answer now selectedRaffle)
    show ?thesis
    proof (cases "drawWinner multiply random fetched answer now selectedRaffle db")
      case (Inl e)
      then show ?thesis using DrawWinner assms by simp
    next
      case (Inr pair)
      obtain res db' where pair: "pair = (res, db')" by (cases pair)
      from drawWinner_store [OF Inr [unfolded pair]] show ?thesis
      proof
        assume "db' = db"
        then show ?thesis using DrawWinner Inr pair assms by simp
      next
        assume "\<exists>raffle w. selectedRaffle = Some raffle \<and> w \<in> set (eligible_participants (raffle_id raffle) db)
          \<and> db' = db\<lparr>participants :=
                  map (\<lambda>p. if participant_id p = participant_id w then mark_winner now p else p)
                      (participants db)\<rparr>"
        then obtain raffle w where sel: "selectedRaffle = Some raffle"
          and w: "w \<in> set (eligible_participants (raffle_id raffle) db)"
          and db': "db' = db\<lparr>participants :=
                  map (\<lambda>p. if participant_id p = participant_id w then mark_winner now p else p)
                      (participants db)\<rparr>" by blast
        have win: "w \<in> set (participants db)" and wr: "participant_raffleId w = raffle_id raffle"
          using w by (simp_all add: eligible_participants_iff)
        have c: "count_winners rid db' \<le> count_winners rid db + (if raffle_id raffle = rid then 1 else 0)"
          unfolding db' using count_winners_mark [OF assms win, of rid now] wr by simp
        have "apply_operation multiply x db = db'" using DrawWinner Inr pair by simp
        then show ?thesis using c sel DrawWinner assms by (simp add: db' ids_after_mark)
      qed
    qed
  qed
  then show "distinct (map participant_id (participants (apply_operation multiply x db)))"
    and "raffles (apply_operation multiply x db) = raffles db"
    and "count_winners rid (apply_operation multiply x db)
         \<le> count_winners rid db + (if draws_on rid x then 1 else 0)" by simp_all
qed

lemma run_winners:
  "distinct (map participant_id (participants db)) \<Longrightarrow>
   raffles (run multiply xs db) = raffles db \<and>
   count_winners rid (run multiply xs db) \<le> count_winners rid db + length (filter (draws_on rid) xs)"
proof (induction xs arbitrary: db)
  case Nil
  then show ?case by simp
next
  case (Cons x xs)
  note step = apply_operation_step [OF Cons.prems, where x = x and multiply = multiply]
  from Cons.IH [OF step(1)] step(2) step(3) [where rid = rid] show ?case by auto
qed

text \<open>
  C2, as stated, fails: the quantity is checked at registration only. With quantity 1,
  two registrations are accepted while there is no winner yet, and two draws then make
  both participants winners.
\<close>

theorem winner_ceiling_counterexample:
  "count_winners ''r1'' (store_of raffle_one []) = 0 \<and>
   raffle_quantity raffle_one = Some 1 \<and>
   run exact_times [AddParticipant all_served ''p1'' (registration ''Ana'' ''ana@example.com''),
        AddParticipant all_served ''p2'' (registration ''Bob'' ''bob@example.com''),
        DrawWinner 0 Accepted Accepted ''10:00'' (Some raffle_one),
        DrawWinner 0 Accepted Accepted ''10:05'' (Some raffle_one)] (store_of raffle_one [])
     = store_of raffle_one [entry ''p1'' ''Ana'' ''ana@example.com'' True (Some ''10:00''),
                            entry ''p2'' ''Bob'' ''bob@example.com'' True (Some ''10:05'')] \<and>
   count_winners ''r1''
     (run exact_times [AddParticipant all_served ''p1'' (registration ''Ana'' ''ana@example.com''),
           AddParticipant all_served ''p2'' (registration ''Bob'' ''bob@example.com''),
           DrawWinner 0 Accepted Accepted ''10:00'' (Some raffle_one),
           DrawWinner 0 Accepted Accepted ''10:05'' (Some raffle_one)] (store_of raffle_one [])) = 2"
  by code_simp

text \<open>
  C2, amended, for e-mails of ASCII characters and ids that are primary keys. Over any
  sequence of \<^const>\<open>addParticipant\<close> and \<^const>\<open>drawWinner\<close> operations
  the raffles stay as they are and the winner count of a raffle grows by at most the
  number of draws made on that raffle: a registration changes no winner count, a draw
  adds at most one winner and is not checked against the quantity. The ceiling is
  enforced at registration: when the count of the winners is answered and has reached
  the quantity of the raffle, \<^const>\<open>addParticipant\<close> for it fails and inserts nothing. In
  the concrete instance, quantity 1 with one winner, a new registration (the raffle
  lookup and the count being answered) fails with the ceiling message, and
  \<^const>\<open>drawWinner\<close> with that raffle selected and no eligible participant returns no
  winner.
\<close>

theorem winner_ceiling:
  assumes "distinct (map participant_id (participants db))"
      and "distinct (map raffle_id (raffles db))"
      and "list_all ascii_operation ops" and "ascii (pd_email pd)"
  shows
   "raffles (run multiply ops db) = raffles db \<and>
    count_winners rid (run multiply ops db) \<le> count_winners rid db + length (filter (draws_on rid) ops) \<and>
    count_winners rid (snd (addParticipant answers newId pd db)) = count_winners rid db \<and>
    (winnerCounting answers = Accepted \<and>
     (\<forall>r\<in>set (raffles db). raffle_id r = pd_raffleId pd
          \<longrightarrow> (\<forall>q. raffle_quantity r = Some q \<longrightarrow> q \<le> int (count_winners (pd_raffleId pd) db)))
       \<longrightarrow> snd (addParticipant answers newId pd db) = db
           \<and> success (fst (addParticipant answers newId pd db)) = False) \<and>
    (\<forall>r\<in>set (raffles db). raffle_quantity r = Some 1 \<and> count_winners (raffle_id r) db = 1 \<longrightarrow>
       (pd_raffleId pd = raffle_id r \<and>
        raffleLookup answers = Accepted \<and> winnerCounting answers = Accepted \<and>
        \<not> (\<exists>p\<in>set (participants db). participant_raffleId p = raffle_id r
               \<and> participant_email p = toLowerCase (pd_email pd))
          \<longrightarrow> addParticipant answers newId pd db
                = (failure (WinnerLimitReached (raffle_name r)), db)) \<and>
       (eligible_participants (raffle_id r) db = []
          \<longrightarrow> drawWinner multiply random fetched answer now (Some r) db = Inr (None, db)))"
proof (intro conjI)
  show "raffles (run multiply ops db) = raffles db"
    using run_winners [OF assms(1)] by blast
  show "count_winners rid (run multiply ops db) \<le> count_winners rid db + length (filter (draws_on rid) ops)"
    using run_winners [OF assms(1)] by blast
  show "count_winners rid (snd (addParticipant answers newId pd db)) = count_winners rid db"
    by (rule addParticipant_winners)
  show "winnerCounting answers = Accepted \<and>
     (\<forall>r\<in>set (raffles db). raffle_id r = pd_raffleId pd
          \<longrightarrow> (\<forall>q. raffle_quantity r = Some q \<longrightarrow> q \<le> int (count_winners (pd_raffleId pd) db)))
       \<longrightarrow> snd (addParticipant answers newId pd db) = db
           \<and> success (fst (addParticipant answers newId pd db)) = False"
    using addParticipant_closed by blast
  show "\<forall>r\<in>set (raffles db). raffle_quantity r = Some 1 \<and> count_winners (raffle_id r) db = 1 \<longrightarrow>
       (pd_raffleId pd = raffle_id r \<and>
        raffleLookup answers = Accepted \<and> winnerCounting answers = Accepted \<and>
        \<not> (\<exists>p\<in>set (participants db). participant_raffleId p = raffle_id r
               \<and> participant_email p = toLowerCase (pd_email pd))
          \<longrightarrow> addParticipant answers newId pd db
                = (failure (WinnerLimitReached (raffle_name r)), db)) \<and>
       (eligible_participants (raffle_id r) db = []
          \<longrightarrow> drawWinner multiply random fetched answer now (Some r) db = Inr (None, db))"
  proof (intro ballI impI conjI)
    fix r assume r: "r \<in> set (raffles db)"
      and q: "raffle_quantity r = Some 1 \<and> count_winners (raffle_id r) db = 1"
    {
      assume a: "pd_raffleId pd = raffle_id r \<and>
        raffleLookup answers = Accepted \<and> winnerCounting answers = Accepted \<and>
        \<not> (\<exists>p\<in>set (participants db). participant_raffleId p = raffle_id r
               \<and> participant_email p = toLowerCase (pd_email pd))"
      then have rid: "raffle_id r = pd_raffleId pd" and rl: "raffleLookup answers = Accepted"
        and wc: "winnerCounting answers = Accepted" by simp_all
      have e: "entries_with_email (toLowerCase (pd_email pd)) (pd_raffleId pd) db = []"
        using a by (intro entries_with_email_none) simp
      have lr: "limit_reached (count_rows (winnerCounting answers) (winners (pd_raffleId pd) db))
                  (raffle_quantity r)"
        unfolding limit_reached_iff using q wc rid by (simp add: count_winners_def)
      show "addParticipant answers newId pd db = (failure (WinnerLimitReached (raffle_name r)), db)"
        unfolding addParticipant_new [OF assms(2) r rid rl e] using lr by simp
    }
    assume "eligible_participants (raffle_id r) db = []"
    then show "drawWinner multiply random fetched answer now (Some r) db = Inr (None, db)"
      by (cases fetched) (simp_all add: drawWinner_def select_rows_def)
  qed
qed

theorem winner_ceiling_witness:
  "addParticipant all_served ''p2'' (registration ''Bob'' ''bob@example.com'')
      (store_of raffle_one [entry ''p1'' ''Ana'' ''ana@example.com'' True (Some ''10:00'')])
     = (failure (WinnerLimitReached ''Monitor''),
        store_of raffle_one [entry ''p1'' ''Ana'' ''ana@example.com'' True (Some ''10:00'')]) \<and>
   drawWinner exact_times (1/2) Accepted Accepted ''10:05'' (Some raffle_one)
      (store_of raffle_one [entry ''p1'' ''Ana'' ''ana@example.com'' True (Some ''10:00'')])
     = Inr (None, store_of raffle_one [entry ''p1'' ''Ana'' ''ana@example.com'' True (Some ''10:00'')]) \<and>
   count_winners ''r1''
     (run exact_times [AddParticipant all_served ''p2'' (registration ''Bob'' ''bob@example.com''),
           DrawWinner (1/2) Accepted Accepted ''10:05'' (Some raffle_one)]
        (store_of raffle_one [entry ''p1'' ''Ana'' ''ana@example.com'' True (Some ''10:00'')]))
     \<le> 2 \<and>
   snd (addParticipant (all_served\<lparr>raffleLookup := Rejected ''timeout''\<rparr>) ''p2''
          (registration ''Bob'' ''bob@example.com'')
          (store_of raffle_one [entry ''p1'' ''Ana'' ''ana@example.com'' True (Some ''10:00'')]))
     = store_of raffle_one [entry ''p1'' ''Ana'' ''ana@example.com'' True (Some ''10:00'')]"
proof -
  let ?db = "store_of raffle_one [entry ''p1'' ''Ana'' ''ana@example.com'' True (Some ''10:00'')]"
  let ?pd = "registration ''Bob'' ''bob@example.com''"
  let ?ops = "[AddParticipant all_served ''p2'' ?pd,
               DrawWinner (1/2) Accepted Accepted ''10:05'' (Some raffle_one)]"
  let ?failing = "all_served\<lparr>raffleLookup := Rejected ''timeout''\<rparr>"
  have h1: "distinct (map participant_id (participants ?db))" by (simp add: example_defs)
  have h2: "distinct (map raffle_id (raffles ?db))" by (simp add: example_defs)
  have h3: "list_all ascii_operation ?ops" by code_simp
  have h4: "ascii (pd_email ?pd)" by code_simp
  note t = winner_ceiling [OF h1 h2 h3 h4, where answers = all_served and newId = "''p2''"
      and random = "1/2" and now = "''10:05''" and rid = "''r1''"
      and multiply = exact_times and fetched = Accepted and answer = Accepted]
  note u = winner_ceiling [OF h1 h2 h3 h4, where answers = ?failing and newId = "''p2''"]
  have r: "raffle_one \<in> set (raffles ?db)" by (simp add: example_defs)
  have q: "raffle_quantity raffle_one = Some 1 \<and> count_winners (raffle_id raffle_one) ?db = 1"
    by code_simp
  have n: "pd_raffleId ?pd = raffle_id raffle_one \<and>
        raffleLookup all_served = Accepted \<and> winnerCounting all_served = Accepted \<and>
        \<not> (\<exists>p\<in>set (participants ?db). participant_raffleId p = raffle_id raffle_one
               \<and> participant_email p = toLowerCase (pd_email ?pd))"
    by code_simp
  have e: "eligible_participants (raffle_id raffle_one) ?db = []" by code_simp
  have nm: "raffle_name raffle_one = ''Monitor''" by (simp add: example_defs)
  have c: "count_winners ''r1'' ?db + length (filter (draws_on ''r1'') ?ops) = 2" by code_simp
  have cl: "winnerCounting ?failing = Accepted \<and>
     (\<forall>r\<in>set (raffles ?db). raffle_id r = pd_raffleId ?pd
          \<longrightarrow> (\<forall>q. raffle_quantity r = Some q \<longrightarrow> q \<le> int (count_winners (pd_raffleId ?pd) ?db)))"
    by (simp add: example_defs count_winners_def winners_def)
  note inst = t [THEN conjunct2, THEN conjunct2, THEN conjunct2, THEN conjunct2,
      THEN bspec, OF r, THEN mp, OF q]
  have a: "addParticipant all_served ''p2'' ?pd ?db = (failure (WinnerLimitReached ''Monitor''), ?db)"
    using inst [THEN conjunct1, THEN mp, OF n] nm by simp
  have b: "drawWinner exact_times (1/2) Accepted Accepted ''10:05'' (Some raffle_one) ?db = Inr (None, ?db)"
    using inst [THEN conjunct2, THEN mp, OF e] .
  have d: "count_winners ''r1'' (run exact_times ?ops ?db) \<le> 2"
    using t [THEN conjunct2, THEN conjunct1] unfolding c .
  note f = u [THEN conjunct2, THEN conjunct2, THEN conjunct2, THEN conjunct1, THEN mp, OF cl,
      THEN conjunct1]
  show ?thesis by (intro conjI) (rule a, rule b, rule d, rule f)
qed

section \<open>Properties of raffle creation\<close>

lemmas creation_defs = organizer_abc_def raffle_form_def answers_of_def event_expo_def

text \<open>
  \<^const>\<open>createEventWithRaffle\<close> after its first step: with an event selected, with the
  event created, and with the event refused.
\<close>

lemma createEventWithRaffle_selected:
  assumes "selectedEvent = Some ev" "event_id ev \<noteq> []"
  shows "createEventWithRaffle answers (Some org) selectedEvent data db
         = (case maybeSingle (codeLookup answers)
                   (raffles_with_code (fullRaffleCode org data) db) of
              Some existingRaffle \<Rightarrow> (failure RaffleCodeInUse, db)
            | None \<Rightarrow>
                (case insert_raffle (raffleAnswer answers)
                        \<lparr>raffle_id = newRaffleId answers, raffle_name = raffleName data,
                         raffle_quantity = raffleQuantity data,
                         raffle_code = fullRaffleCode org data,
                         raffle_eventId = event_id ev\<rparr> db of
                   (Some err, db2) \<Rightarrow> (failure (RaffleError err), db2)
                 | (None, db2) \<Rightarrow> (succeeded (RaffleAdded (raffleName data)), db2)))"
  using assms by (simp add: createEventWithRaffle_def Let_def)

lemma selectedId_empty:
  assumes "\<not> (\<exists>ev. selectedEvent = Some ev \<and> event_id ev \<noteq> [])"
  shows "(case selectedEvent of Some ev \<Rightarrow> event_id ev | None \<Rightarrow> []) = []"
  using assms by (cases selectedEvent) simp_all

lemma createEventWithRaffle_created:
  fixes org :: organizer and data :: raffleData
  assumes "\<not> (\<exists>ev. selectedEvent = Some ev \<and> event_id ev \<noteq> [])"
    and "eventAnswer answers = Accepted"
    and "newEventId answers \<notin> set (map event_id (events db))"
  defines "db1 \<equiv> db\<lparr>events := events db @
                     [\<lparr>event_id = newEventId answers, event_name = eventName data,
                       event_date = createdAt answers, event_organizerId = organizer_id org\<rparr>]\<rparr>"
  shows "createEventWithRaffle answers (Some org) selectedEvent data db
         = (case maybeSingle (codeLookup answers)
                   (raffles_with_code (fullRaffleCode org data) db) of
              Some existingRaffle \<Rightarrow> (failure RaffleCodeInUse, db1)
            | None \<Rightarrow>
                (case insert_raffle (raffleAnswer answers)
                        \<lparr>raffle_id = newRaffleId answers, raffle_name = raffleName data,
                         raffle_quantity = raffleQuantity data,
                         raffle_code = fullRaffleCode org data,
                         raffle_eventId = newEventId answers\<rparr> db1 of
                   (Some err, db2) \<Rightarrow> (failure (RaffleError err), db2)
                 | (None, db2) \<Rightarrow> (succeeded (RaffleAdded (raffleName data)), db2)))"
proof -
  have c: "raffles_with_code code db1 = raffles_with_code code db" for code
    by (simp add: raffles_with_code_def db1_def)
  show ?thesis
    using assms(2,3) c
    by (simp add: createEventWithRaffle_def selectedId_empty [OF assms(1)] insert_event_def
          Let_def db1_def [symmetric])
qed

lemma createEventWithRaffle_refused:
  assumes "\<not> (\<exists>ev. selectedEvent = Some ev \<and> event_id ev \<noteq> [])"
    and "eventAnswer answers = Rejected err"
  shows "createEventWithRaffle answers (Some org) selectedEvent data db
         = (failure (EventError err), db)"
  using assms(2)
  by (simp add: createEventWithRaffle_def selectedId_empty [OF assms(1)] insert_event_def Let_def)

lemma toUpperCase_promo4k: "toUpperCase ''promo4k'' = ''PROMO4K''"
  by code_simp

text \<open>
  C6, as stated, fails. When no event is selected the event is inserted first, and when
  the store rejects that insert the operation fails with the event error, whatever the
  code. And when the lookup of the code fails, the operation goes on and inserts a
  second raffle with the code of an existing one.
\<close>

theorem raffle_code_counterexample:
  "raffle_code raffle_two
     = fullRaffleCode organizer_abc (onChange_raffleCode ''promo4k'' (raffle_form [])) \<and>
   createEventWithRaffle (answers_of (Rejected ''unavailable'') ''e2'' Accepted Accepted ''r2'')
       (Some organizer_abc) None (onChange_raffleCode ''promo4k'' (raffle_form []))
       (store_of raffle_two [])
     = (failure (EventError ''unavailable''), store_of raffle_two []) \<and>
   createEventWithRaffle (answers_of Accepted ''e2'' (Rejected ''timeout'') Accepted ''r2'')
       (Some organizer_abc) (Some event_expo) (onChange_raffleCode ''promo4k'' (raffle_form []))
       (store_of raffle_two [])
     = (succeeded (RaffleAdded ''Monitor''),
        \<lparr>events = [], raffles = [raffle_two, raffle_two\<lparr>raffle_id := ''r2''\<rparr>],
         participants = []\<rparr>)"
  by code_simp

text \<open>
  C6, amended. The raffle code is the organizer's code followed by the suffix: the form
  keeps the typed suffix (of ASCII characters) upper-cased, \<^const>\<open>handleSubmit\<close> passes
  the filled form on, and \<^const>\<open>createEventWithRaffle\<close> concatenates the organizer's code
  and the suffix it is given, so that \<^verbatim>\<open>ABC\<close> and the typed \<^verbatim>\<open>promo4k\<close> give
  \<^verbatim>\<open>ABCPROMO4K\<close>. For a logged-in organizer: when no event is selected and the store
  rejects the new event, the operation fails with the event-creation error and writes
  nothing, whatever the code. Otherwise an event is selected, or the new event is
  inserted, and the code is looked up. When the lookup is answered and exactly one
  raffle has the composed code (compared as stored), the operation fails with the
  duplicate-code message and inserts no raffle. When the lookup is answered, no raffle
  has the composed code and the store accepts the new raffle under a new id, the
  raffle is inserted with the composed code, for the selected or the new event, and the
  operation succeeds.
\<close>

theorem raffle_code_composition:
  assumes "ascii typed"
  shows
   "fullRaffleCode org (onChange_raffleCode typed form) = organizerCode org @ toUpperCase typed \<and>
    (organizerCode org = ''ABC''
       \<longrightarrow> fullRaffleCode org (onChange_raffleCode ''promo4k'' form) = ''ABCPROMO4K'') \<and>
    (eventName form \<noteq> [] \<and> raffleName form \<noteq> [] \<and> typed \<noteq> []
       \<and> (\<forall>q. raffleQuantity form = Some q \<longrightarrow> 1 \<le> q) \<longrightarrow>
       handleSubmit answers organizer selectedEvent (onChange_raffleCode typed form) db
         = createEventWithRaffle answers organizer selectedEvent
             (onChange_raffleCode typed form) db) \<and>
    (\<not> (\<exists>ev. selectedEvent = Some ev \<and> event_id ev \<noteq> []) \<longrightarrow>
       (\<forall>err. eventAnswer answers = Rejected err \<longrightarrow>
          createEventWithRaffle answers (Some org) selectedEvent data db
            = (failure (EventError err), db))) \<and>
    (codeLookup answers = Accepted
       \<and> length (raffles_with_code (organizerCode org @ raffleCode data) db) = 1 \<longrightarrow>
       (\<forall>ev. selectedEvent = Some ev \<and> event_id ev \<noteq> [] \<longrightarrow>
          createEventWithRaffle answers (Some org) selectedEvent data db
            = (failure RaffleCodeInUse, db)) \<and>
       (\<not> (\<exists>ev. selectedEvent = Some ev \<and> event_id ev \<noteq> [])
          \<and> eventAnswer answers = Accepted
          \<and> newEventId answers \<notin> set (map event_id (events db)) \<longrightarrow>
          createEventWithRaffle answers (Some org) selectedEvent data db
            = (failure RaffleCodeInUse,
               db\<lparr>events := events db @
                    [\<lparr>event_id = newEventId answers, event_name = eventName data,
                      event_date = createdAt answers, event_organizerId = organizer_id org\<rparr>]\<rparr>))) \<and>
    (codeLookup answers = Accepted
       \<and> raffles_with_code (organizerCode org @ raffleCode data) db = []
       \<and> raffleAnswer answers = Accepted
       \<and> newRaffleId answers \<notin> set (map raffle_id (raffles db)) \<longrightarrow>
       (\<forall>ev. selectedEvent = Some ev \<and> event_id ev \<noteq> [] \<longrightarrow>
          createEventWithRaffle answers (Some org) selectedEvent data db
            = (succeeded (RaffleAdded (raffleName data)),
               db\<lparr>raffles := raffles db @
                    [\<lparr>raffle_id = newRaffleId answers, raffle_name = raffleName data,
                      raffle_quantity = raffleQuantity data,
                      raffle_code = organizerCode org @ raffleCode data,
                      raffle_eventId = event_id ev\<rparr>]\<rparr>)) \<and>
       (\<not> (\<exists>ev. selectedEvent = Some ev \<and> event_id ev \<noteq> [])
          \<and> eventAnswer answers = Accepted
          \<and> newEventId answers \<notin> set (map event_id (events db)) \<longrightarrow>
          createEventWithRaffle answers (Some org) selectedEvent data db
            = (succeeded (RaffleAdded (raffleName data)),
               db\<lparr>events := events db @
                    [\<lparr>event_id = newEventId answers, event_name = eventName data,
                      event_date = createdAt answers, event_organizerId = organizer_id org\<rparr>],
                  raffles := raffles db @
                    [\<lparr>raffle_id = newRaffleId answers, raffle_name = raffleName data,
                      raffle_quantity = raffleQuantity data,
                      raffle_code = organizerCode org @ raffleCode data,
                      raffle_eventId = newEventId answers\<rparr>]\<rparr>)))"
proof -
  let ?code = "organizerCode org @ raffleCode data"
  let ?evrow = "\<lparr>event_id = newEventId answers, event_name = eventName data,
                 event_date = createdAt answers, event_organizerId = organizer_id org\<rparr>"
  have code: "fullRaffleCode org data = ?code" by (simp add: fullRaffleCode_def)
  have a: "fullRaffleCode org (onChange_raffleCode typed form) = organizerCode org @ toUpperCase typed"
    by (simp add: fullRaffleCode_def onChange_raffleCode_def)
  have b: "organizerCode org = ''ABC''
       \<longrightarrow> fullRaffleCode org (onChange_raffleCode ''promo4k'' form) = ''ABCPROMO4K''"
    by (simp add: fullRaffleCode_def onChange_raffleCode_def toUpperCase_promo4k)
  have c: "eventName form \<noteq> [] \<and> raffleName form \<noteq> [] \<and> typed \<noteq> []
       \<and> (\<forall>q. raffleQuantity form = Some q \<longrightarrow> 1 \<le> q) \<longrightarrow>
       handleSubmit answers organizer selectedEvent (onChange_raffleCode typed form) db
         = createEventWithRaffle answers organizer selectedEvent
             (onChange_raffleCode typed form) db"
    by (cases "raffleQuantity form")
       (auto simp add: handleSubmit_def onChange_raffleCode_def toUpperCase_def less_than_one_def)
  have d: "\<not> (\<exists>ev. selectedEvent = Some ev \<and> event_id ev \<noteq> []) \<longrightarrow>
       (\<forall>err. eventAnswer answers = Rejected err \<longrightarrow>
          createEventWithRaffle answers (Some org) selectedEvent data db
            = (failure (EventError err), db))"
    using createEventWithRaffle_refused by blast
  have e: "codeLookup answers = Accepted \<and> length (raffles_with_code ?code db) = 1 \<longrightarrow>
       (\<forall>ev. selectedEvent = Some ev \<and> event_id ev \<noteq> [] \<longrightarrow>
          createEventWithRaffle answers (Some org) selectedEvent data db
            = (failure RaffleCodeInUse, db)) \<and>
       (\<not> (\<exists>ev. selectedEvent = Some ev \<and> event_id ev \<noteq> [])
          \<and> eventAnswer answers = Accepted
          \<and> newEventId answers \<notin> set (map event_id (events db)) \<longrightarrow>
          createEventWithRaffle answers (Some org) selectedEvent data db
            = (failure RaffleCodeInUse, db\<lparr>events := events db @ [?evrow]\<rparr>))"
  proof (intro impI conjI allI)
    assume h: "codeLookup answers = Accepted \<and> length (raffles_with_code ?code db) = 1"
    then obtain row where
      found: "maybeSingle (codeLookup answers) (raffles_with_code (fullRaffleCode org data) db)
              = Some row"
      using maybeSingle_one [of "raffles_with_code ?code db"] unfolding code by auto
    {
      fix ev assume "selectedEvent = Some ev \<and> event_id ev \<noteq> []"
      then have s: "selectedEvent = Some ev" "event_id ev \<noteq> []" by simp_all
      show "createEventWithRaffle answers (Some org) selectedEvent data db
            = (failure RaffleCodeInUse, db)"
        unfolding createEventWithRaffle_selected [OF s] found by simp
    }
    assume "\<not> (\<exists>ev. selectedEvent = Some ev \<and> event_id ev \<noteq> [])
          \<and> eventAnswer answers = Accepted
          \<and> newEventId answers \<notin> set (map event_id (events db))"
    then have n: "\<not> (\<exists>ev. selectedEvent = Some ev \<and> event_id ev \<noteq> [])"
      and acc: "eventAnswer answers = Accepted"
      and fresh: "newEventId answers \<notin> set (map event_id (events db))" by simp_all
    show "createEventWithRaffle answers (Some org) selectedEvent data db
            = (failure RaffleCodeInUse, db\<lparr>events := events db @ [?evrow]\<rparr>)"
      unfolding createEventWithRaffle_created [OF n acc fresh] found by simp
  qed
  have f: "codeLookup answers = Accepted \<and> raffles_with_code ?code db = []
       \<and> raffleAnswer answers = Accepted
       \<and> newRaffleId answers \<notin> set (map raffle_id (raffles db)) \<longrightarrow>
       (\<forall>ev. selectedEvent = Some ev \<and> event_id ev \<noteq> [] \<longrightarrow>
          createEventWithRaffle answers (Some org) selectedEvent data db
            = (succeeded (RaffleAdded (raffleName data)),
               db\<lparr>raffles := raffles db @
                    [\<lparr>raffle_id = newRaffleId answers, raffle_name = raffleName data,
                      raffle_quantity = raffleQuantity data,
                      raffle_code = ?code, raffle_eventId = event_id ev\<rparr>]\<rparr>)) \<and>
       (\<not> (\<exists>ev. selectedEvent = Some ev \<and> event_id ev \<noteq> [])
          \<and> eventAnswer answers = Accepted
          \<and> newEventId answers \<notin> set (map event_id (events db)) \<longrightarrow>
          createEventWithRaffle answers (Some org) selectedEvent data db
            = (succeeded (RaffleAdded (raffleName data)),
               db\<lparr>events := events db @ [?evrow],
                  raffles := raffles db @
                    [\<lparr>raffle_id = newRaffleId answers, raffle_name = raffleName data,
                      raffle_quantity = raffleQuantity data,
                      raffle_code = ?code, raffle_eventId = newEventId answers\<rparr>]\<rparr>))"
  proof (intro impI conjI allI)
    assume h: "codeLookup answers = Accepted \<and> raffles_with_code ?code db = []
       \<and> raffleAnswer answers = Accepted
       \<and> newRaffleId answers \<notin> set (map raffle_id (raffles db))"
    then have nf: "maybeSingle (codeLookup answers)
                     (raffles_with_code (fullRaffleCode org data) db) = None"
      and ra: "raffleAnswer answers = Accepted"
      and rf: "newRaffleId answers \<notin> set (map raffle_id (raffles db))"
      unfolding code by simp_all
    {
      fix ev assume "selectedEvent = Some ev \<and> event_id ev \<noteq> []"
      then have s: "selectedEvent = Some ev" "event_id ev \<noteq> []" by simp_all
      show "createEventWithRaffle answers (Some org) selectedEvent data db
            = (succeeded (RaffleAdded (raffleName data)),
               db\<lparr>raffles := raffles db @
                    [\<lparr>raffle_id = newRaffleId answers, raffle_name = raffleName data,
                      raffle_quantity = raffleQuantity data,
                      raffle_code = ?code, raffle_eventId = event_id ev\<rparr>]\<rparr>)"
        unfolding createEventWithRaffle_selected [OF s] nf
        using ra rf by (simp add: insert_raffle_def code)
    }
    assume "\<not> (\<exists>ev. selectedEvent = Some ev \<and> event_id ev \<noteq> [])
          \<and> eventAnswer answers = Accepted
          \<and> newEventId answers \<notin> set (map event_id (events db))"
    then have n: "\<not> (\<exists>ev. selectedEvent = Some ev \<and> event_id ev \<noteq> [])"
      and acc: "eventAnswer answers = Accepted"
      and fresh: "newEventId answers \<notin> set (map event_id (events db))" by simp_all
    show "createEventWithRaffle answers (Some org) selectedEvent data db
            = (succeeded (RaffleAdded (raffleName data)),
               db\<lparr>events := events db @ [?evrow],
                  raffles := raffles db @
                    [\<lparr>raffle_id = newRaffleId answers, raffle_name = raffleName data,
                      raffle_quantity = raffleQuantity data,
                      raffle_code = ?code, raffle_eventId = newEventId answers\<rparr>]\<rparr>)"
      unfolding createEventWithRaffle_created [OF n acc fresh] nf
      using ra rf by (simp add: insert_raffle_def code)
  qed
  show ?thesis by (intro conjI) (rule a, rule b, rule c, rule d, rule e, rule f)
qed

theorem raffle_code_composition_witness:
  "ascii ''promo4k'' \<and>
   fullRaffleCode organizer_abc (onChange_raffleCode ''promo4k'' (raffle_form [])) = ''ABCPROMO4K'' \<and>
   handleSubmit (answers_of Accepted ''e1'' Accepted Accepted ''r1'') (Some organizer_abc) None
       (onChange_raffleCode ''promo4k'' (raffle_form []))
       \<lparr>events = [], raffles = [], participants = []\<rparr>
     = (succeeded (RaffleAdded ''Monitor''),
        \<lparr>events = [\<lparr>event_id = ''e1'', event_name = ''Expo'',
                     event_date = ''2025-09-12T10:00:00Z'', event_organizerId = ''o1''\<rparr>],
         raffles = [raffle_two], participants = []\<rparr>) \<and>
   createEventWithRaffle (answers_of Accepted ''e2'' Accepted Accepted ''r2'') (Some organizer_abc) None
       (onChange_raffleCode ''promo4k'' (raffle_form [])) (store_of raffle_two [])
     = (failure RaffleCodeInUse,
        \<lparr>events = [\<lparr>event_id = ''e2'', event_name = ''Expo'',
                     event_date = ''2025-09-12T10:00:00Z'', event_organizerId = ''o1''\<rparr>],
         raffles = [raffle_two], participants = []\<rparr>) \<and>
   createEventWithRaffle (answers_of (Rejected ''unavailable'') ''e2'' Accepted Accepted ''r2'')
       (Some organizer_abc) None (onChange_raffleCode ''promo4k'' (raffle_form []))
       (store_of raffle_two [])
     = (failure (EventError ''unavailable''), store_of raffle_two [])"
proof -
  let ?empty = "\<lparr>events = [], raffles = [], participants = []\<rparr>"
  let ?db = "store_of raffle_two []"
  let ?form = "raffle_form []"
  let ?data = "onChange_raffleCode ''promo4k'' ?form"
  let ?first = "answers_of Accepted ''e1'' Accepted Accepted ''r1''"
  let ?second = "answers_of Accepted ''e2'' Accepted Accepted ''r2''"
  let ?refused = "answers_of (Rejected ''unavailable'') ''e2'' Accepted Accepted ''r2''"
  have h: "ascii ''promo4k''" by code_simp
  note t1 = raffle_code_composition [OF h, where org = organizer_abc and form = ?form
      and data = ?data and answers = ?first and selectedEvent = None and db = ?empty
      and organizer = "Some organizer_abc"]
  note t2 = raffle_code_composition [OF h, where org = organizer_abc and form = ?form
      and data = ?data and answers = ?second and selectedEvent = None and db = ?db]
  note t3 = raffle_code_composition [OF h, where org = organizer_abc and form = ?form
      and data = ?data and answers = ?refused and selectedEvent = None and db = ?db]
  have abc: "organizerCode organizer_abc = ''ABC''" by (simp add: creation_defs)
  have none: "\<not> (\<exists>ev. (None :: event option) = Some ev \<and> event_id ev \<noteq> [])" by simp
  have a: "fullRaffleCode organizer_abc ?data = ''ABCPROMO4K''"
    using t1 [THEN conjunct2, THEN conjunct1, THEN mp, OF abc] .
  have filled: "eventName ?form \<noteq> [] \<and> raffleName ?form \<noteq> [] \<and> ''promo4k'' \<noteq> []
       \<and> (\<forall>q. raffleQuantity ?form = Some q \<longrightarrow> 1 \<le> q)"
    by (simp add: creation_defs)
  have sub: "handleSubmit ?first (Some organizer_abc) None ?data ?empty
             = createEventWithRaffle ?first (Some organizer_abc) None ?data ?empty"
    using t1 [THEN conjunct2, THEN conjunct2, THEN conjunct1, THEN mp, OF filled] .
  have new: "codeLookup ?first = Accepted
       \<and> raffles_with_code (organizerCode organizer_abc @ raffleCode ?data) ?empty = []
       \<and> raffleAnswer ?first = Accepted
       \<and> newRaffleId ?first \<notin> set (map raffle_id (raffles ?empty))"
    by (simp add: creation_defs raffles_with_code_def)
  have ev1: "\<not> (\<exists>ev. (None :: event option) = Some ev \<and> event_id ev \<noteq> [])
          \<and> eventAnswer ?first = Accepted
          \<and> newEventId ?first \<notin> set (map event_id (events ?empty))"
    by (simp add: creation_defs)
  have made: "createEventWithRaffle ?first (Some organizer_abc) None ?data ?empty
     = (succeeded (RaffleAdded ''Monitor''),
        \<lparr>events = [\<lparr>event_id = ''e1'', event_name = ''Expo'',
                     event_date = ''2025-09-12T10:00:00Z'', event_organizerId = ''o1''\<rparr>],
         raffles = [raffle_two], participants = []\<rparr>)"
    using t1 [THEN conjunct2, THEN conjunct2, THEN conjunct2, THEN conjunct2, THEN conjunct2,
              THEN mp, OF new, THEN conjunct2, THEN mp, OF ev1]
    by (simp add: creation_defs example_defs onChange_raffleCode_def toUpperCase_promo4k)
  have b: "handleSubmit ?first (Some organizer_abc) None ?data ?empty
     = (succeeded (RaffleAdded ''Monitor''),
        \<lparr>events = [\<lparr>event_id = ''e1'', event_name = ''Expo'',
                     event_date = ''2025-09-12T10:00:00Z'', event_organizerId = ''o1''\<rparr>],
         raffles = [raffle_two], participants = []\<rparr>)"
    unfolding sub by (rule made)
  have dup: "codeLookup ?second = Accepted
       \<and> length (raffles_with_code (organizerCode organizer_abc @ raffleCode ?data) ?db) = 1"
    by (simp add: creation_defs example_defs raffles_with_code_def onChange_raffleCode_def
          toUpperCase_promo4k)
  have ev2: "\<not> (\<exists>ev. (None :: event option) = Some ev \<and> event_id ev \<noteq> [])
          \<and> eventAnswer ?second = Accepted
          \<and> newEventId ?second \<notin> set (map event_id (events ?db))"
    by (simp add: creation_defs example_defs)
  have c: "createEventWithRaffle ?second (Some organizer_abc) None ?data ?db
     = (failure RaffleCodeInUse,
        \<lparr>events = [\<lparr>event_id = ''e2'', event_name = ''Expo'',
                     event_date = ''2025-09-12T10:00:00Z'', event_organizerId = ''o1''\<rparr>],
         raffles = [raffle_two], participants = []\<rparr>)"
    using t2 [THEN conjunct2, THEN conjunct2, THEN conjunct2, THEN conjunct2, THEN conjunct1,
              THEN mp, OF dup, THEN conjunct2, THEN mp, OF ev2]
    by (simp add: creation_defs example_defs onChange_raffleCode_def)
  have rej: "eventAnswer ?refused = Rejected ''unavailable''" by (simp add: creation_defs)
  have d: "createEventWithRaffle ?refused (Some organizer_abc) None ?data ?db
     = (failure (EventError ''unavailable''), ?db)"
    using t3 [THEN conjunct2, THEN conjunct2, THEN conjunct2, THEN conjunct1, THEN mp, OF none,
              THEN spec, THEN mp, OF rej] .
  show ?thesis by (intro conjI) (rule h, rule a, rule b, rule c, rule d)
qed

section \<open>Properties of the mutations with an image\<close>

lemma saveOrganizer_failed_upload:
  assumes "map_of organizerData ''photoUrl'' = Some (JFile name)" and "upload name = None"
  shows "saveOrganizer upload answer organizerData rowId = (failure PhotoUploadFailed, [])"
  using assms by (simp add: saveOrganizer_def uploadImage_def url_value_def Let_def)

lemma saveCompany_writes:
  "saveCompany upload Accepted (Some ev) companyData rowId \<noteq> []"
  by (simp add: saveCompany_def write_row_def Let_def)

text \<open>
  C7 does not hold of \<^const>\<open>saveCompany\<close>. With an event selected and a raw file as
  \<^verbatim>\<open>logoUrl\<close>, when the upload fails the row is written all the same, on insert and
  on update, with the default image as \<^verbatim>\<open>logo_url\<close>, and nothing reports the failure.
  \<^const>\<open>saveOrganizer\<close> at the same input returns the failure and writes nothing.
\<close>

theorem saveCompany_failed_upload:
  "saveCompany upload_fails Accepted (Some event_expo)
      [(''name'', JStr ''Acme''), (''logoUrl'', JFile ''logo.png'')] None
     = [InsertRow ''companies''
          (JObj [(''name'', JStr ''Acme''), (''logo_url'', JStr DEFAULT_IMAGE_URL),
                 (''event_id'', JStr ''e1'')])] \<and>
   saveCompany upload_fails Accepted (Some event_expo)
      [(''name'', JStr ''Acme''), (''logoUrl'', JFile ''logo.png'')] (Some ''c1'')
     = [UpdateRow ''companies'' ''c1''
          (JObj [(''name'', JStr ''Acme''), (''logo_url'', JStr DEFAULT_IMAGE_URL),
                 (''event_id'', JStr ''e1'')])] \<and>
   saveOrganizer upload_fails Accepted
      [(''name'', JStr ''Triad''), (''photoUrl'', JFile ''photo.png'')] None
     = (failure PhotoUploadFailed, [])"
  by code_simp


end

